theory Spec2Isabelle
  imports Complex_Main "HOL-Library.Sublist"
begin

section \<open>Python exceptions, strings and numbers\<close>

text \<open>
  The history wrapper \<^verbatim>\<open>history.py\<close> is a Python class working on lists of text
  lines. Its exceptions are values of \<open>error\<close>. \<open>OutOfModel\<close> is not a Python
  exception: it marks the two results of \<^verbatim>\<open>float()\<close> (infinity, not-a-number) that
  the number model below has no value for.
\<close>

datatype error = KeyError | IndexError | ValueError | TypeError | NameError
  | AttributeError | UnboundLocalError | OutOfModel

abbreviation TAB :: char where "TAB \<equiv> CHR 0x09"
abbreviation CR :: char where "CR \<equiv> CHR 0x0D"
abbreviation NL :: char where "NL \<equiv> CHR 0x0A"

text \<open>\<^verbatim>\<open>needle in line\<close> on strings.\<close>

fun str_in :: "string \<Rightarrow> string \<Rightarrow> bool" where
  "str_in p [] = (p = [])"
| "str_in p (c # cs) = (prefix p (c # cs) \<or> str_in p cs)"

text \<open>\<^verbatim>\<open>s.split(d)\<close> for a one-character separator: never empty, \<^verbatim>\<open>"".split(d) == [""]\<close>.\<close>

fun split_on :: "char \<Rightarrow> string \<Rightarrow> string list" where
  "split_on d [] = [[]]"
| "split_on d (c # cs) =
     (if c = d then [] # split_on d cs
      else (case split_on d cs of [] \<Rightarrow> [[c]] | w # ws \<Rightarrow> (c # w) # ws))"

text \<open>\<^verbatim>\<open>xs[i]\<close>: a negative index counts from the end, an index out of range raises.\<close>

definition py_index :: "'a list \<Rightarrow> int \<Rightarrow> error + 'a" where
  "py_index xs i =
     (if 0 \<le> i \<and> i < int (length xs) then Inr (xs ! nat i)
      else if i < 0 \<and> - int (length xs) \<le> i then Inr (xs ! nat (int (length xs) + i))
      else Inl IndexError)"

text \<open>\<^verbatim>\<open>xs[a:b]\<close>: both bounds are clipped, negative bounds count from the end.\<close>

definition clip_index :: "nat \<Rightarrow> int \<Rightarrow> nat" where
  "clip_index n i = (if i < 0 then nat (max 0 (int n + i)) else min (nat i) n)"

definition py_slice :: "'a list \<Rightarrow> int \<Rightarrow> int \<Rightarrow> 'a list" where
  "py_slice xs a b =
     (let lo = clip_index (length xs) a; hi = clip_index (length xs) b
      in take (hi - lo) (drop lo xs))"

text \<open>The ASCII characters that \<^verbatim>\<open>str.strip\<close> and \<^verbatim>\<open>str.rstrip\<close> remove.\<close>

definition is_ws :: "char \<Rightarrow> bool" where
  "is_ws c = (c \<in> set [CHR '' '', TAB, NL, CR, CHR 0x0B, CHR 0x0C,
                         CHR 0x1C, CHR 0x1D, CHR 0x1E, CHR 0x1F])"

definition rstrip :: "string \<Rightarrow> string" where
  "rstrip s = rev (dropWhile is_ws (rev s))"

definition strip :: "string \<Rightarrow> string" where
  "strip s = rstrip (dropWhile is_ws s)"

text \<open>
  \<^verbatim>\<open>s.replace(p, r)\<close>: every non-overlapping occurrence, leftmost first. The source
  only replaces fixed non-empty placeholders; for an empty pattern this function returns
  the text unchanged.
\<close>

fun replace :: "string \<Rightarrow> string \<Rightarrow> string \<Rightarrow> string" where
  "replace p r [] = []"
| "replace p r (c # cs) =
     (if p \<noteq> [] \<and> prefix p (c # cs) then r @ replace p r (drop (length p - 1) cs)
      else c # replace p r cs)"

subsection \<open>Numbers and their text\<close>

text \<open>
  Python's floats are modelled by the real numbers they denote: arithmetic is exact, and
  the rounding of binary floating point is outside the model. The conversions
  \<^verbatim>\<open>%d\<close>, \<^verbatim>\<open>%.Nf\<close> and \<^verbatim>\<open>%e\<close> print the exact value, rounding half to even as
  CPython does on the exact value of the float.
\<close>

definition digit_char :: "nat \<Rightarrow> char" where
  "digit_char d = (''0123456789'' ! d)"

fun digits :: "nat \<Rightarrow> string" where
  "digits n = (if n < 10 then [digit_char n] else digits (n div 10) @ [digit_char (n mod 10)])"

declare digits.simps [simp del]

definition pad_left :: "nat \<Rightarrow> char \<Rightarrow> string \<Rightarrow> string" where
  "pad_left w c s = replicate (w - length s) c @ s"

definition fmt_d :: "int \<Rightarrow> string" where
  "fmt_d n = (if n < 0 then ''-'' else []) @ digits (nat \<bar>n\<bar>)"

definition round_half_even :: "real \<Rightarrow> int" where
  "round_half_even x =
     (let f = \<lfloor>x\<rfloor>; d = x - of_int f
      in if d < 1/2 then f else if 1/2 < d then f + 1 else if even f then f else f + 1)"

text \<open>
  \<^verbatim>\<open>"%.Nf" % x\<close> for a number \<open>x\<close>: the sign, then the digits of \<open>\<bar>x\<bar>\<close> scaled
  by \<open>10 ^ N\<close> and rounded.
\<close>

definition fixed_digits :: "nat \<Rightarrow> bool \<Rightarrow> nat \<Rightarrow> string" where
  "fixed_digits prec neg n =
     (if neg then ''-'' else []) @ digits (n div 10 ^ prec) @
     (if prec = 0 then [] else ''.'' @ pad_left prec (CHR ''0'') (digits (n mod 10 ^ prec)))"

definition fmt_f :: "nat \<Rightarrow> real \<Rightarrow> string" where
  "fmt_f prec x = fixed_digits prec (x < 0) (nat (round_half_even (\<bar>x\<bar> * 10 ^ prec)))"

text \<open>The decimal exponent \<open>e\<close> of a positive number: \<open>10 ^ e \<le> a < 10 ^ (e + 1)\<close>.\<close>

definition dec_exp :: "real \<Rightarrow> int" where
  "dec_exp a =
     (if 1 \<le> a then int (length (digits (nat \<lfloor>a\<rfloor>))) - 1
      else - int (length (digits (nat \<lceil>1 / a\<rceil> - 1))))"

text \<open>
  \<^verbatim>\<open>"%e" % x\<close>: one digit, six decimals, an exponent of at least two digits. The
  mantissa is \<open>\<bar>x\<bar> / 10 ^ e\<close> rounded to six decimals; when it rounds up to ten, the
  exponent grows by one.
\<close>

definition sci_scaled :: "real \<Rightarrow> int \<Rightarrow> real" where
  "sci_scaled a e = (if 0 \<le> e then a * 10 ^ 6 / 10 ^ nat e else a * 10 ^ 6 * 10 ^ nat (- e))"

definition sci_digits :: "bool \<Rightarrow> nat \<Rightarrow> int \<Rightarrow> string" where
  "sci_digits neg m e =
     (if neg then ''-'' else []) @ digits (m div 10 ^ 6) @ ''.'' @
     pad_left 6 (CHR ''0'') (digits (m mod 10 ^ 6)) @ ''e'' @
     (if e < 0 then ''-'' else ''+'') @ pad_left 2 (CHR ''0'') (digits (nat \<bar>e\<bar>))"

definition sci_carry :: "bool \<Rightarrow> nat \<Rightarrow> int \<Rightarrow> string" where
  "sci_carry neg m e = (if 10 ^ 7 \<le> m then sci_digits neg (m div 10) (e + 1) else sci_digits neg m e)"

definition fmt_e :: "real \<Rightarrow> string" where
  "fmt_e x =
     (if x = 0 then ''0.000000e+00''
      else sci_carry (x < 0) (nat (round_half_even (sci_scaled \<bar>x\<bar> (dec_exp \<bar>x\<bar>)))) (dec_exp \<bar>x\<bar>))"

text \<open>
  Reading numbers: \<^verbatim>\<open>int(s)\<close> and \<^verbatim>\<open>float(s)\<close> strip white space, take an optional
  sign and decimal digits, where single underscores may separate digits.
\<close>

definition is_digit :: "char \<Rightarrow> bool" where
  "is_digit c = (c \<in> set ''0123456789'')"

definition digit_val :: "char \<Rightarrow> nat" where
  "digit_val c = length (takeWhile (\<lambda>d. d \<noteq> c) ''0123456789'')"

definition digits_value :: "string \<Rightarrow> nat" where
  "digits_value s = foldl (\<lambda>acc c. 10 * acc + digit_val c) 0 s"

definition valid_digit_run :: "string \<Rightarrow> bool" where
  "valid_digit_run s =
     (s \<noteq> [] \<and> is_digit (hd s) \<and> is_digit (last s) \<and>
      list_all (\<lambda>c. is_digit c \<or> c = CHR ''_'') s \<and> \<not> str_in ''__'' s)"

definition run_value :: "string \<Rightarrow> nat" where
  "run_value s = digits_value (filter (\<lambda>c. c \<noteq> CHR ''_'') s)"

definition split_sign :: "string \<Rightarrow> bool \<times> string" where
  "split_sign t =
     (case t of [] \<Rightarrow> (False, [])
      | c # r \<Rightarrow> if c = CHR ''-'' then (True, r) else if c = CHR ''+'' then (False, r) else (False, t))"

definition py_int :: "string \<Rightarrow> error + int" where
  "py_int s =
     (let (neg, body) = split_sign (strip s)
      in if valid_digit_run body
         then Inr ((if neg then - 1 else 1) * int (run_value body))
         else Inl ValueError)"

definition is_exp_mark :: "char \<Rightarrow> bool" where
  "is_exp_mark c = (c = CHR ''e'' \<or> c = CHR ''E'')"

definition to_lower :: "char \<Rightarrow> char" where
  "to_lower c = (case map_of (zip ''ABCDEFGHIJKLMNOPQRSTUVWXYZ'' ''abcdefghijklmnopqrstuvwxyz'') c
                 of None \<Rightarrow> c | Some l \<Rightarrow> l)"

definition py_float :: "string \<Rightarrow> error + real" where
  "py_float s =
     (let (neg, body) = split_sign (strip s);
          mant = takeWhile (\<lambda>c. \<not> is_exp_mark c) body;
          rest = dropWhile (\<lambda>c. \<not> is_exp_mark c) body;
          ip = takeWhile (\<lambda>c. c \<noteq> CHR ''.'') mant;
          fp = drop 1 (dropWhile (\<lambda>c. c \<noteq> CHR ''.'') mant);
          (eneg, ebody) = split_sign (drop 1 rest);
          sgn = (if neg then - 1 else 1)
      in if map to_lower body \<in> set [''inf'', ''infinity'', ''nan''] then Inl OutOfModel
         else if (ip = [] \<or> valid_digit_run ip) \<and> (fp = [] \<or> valid_digit_run fp) \<and>
                 \<not> (ip = [] \<and> fp = []) \<and> (rest = [] \<or> valid_digit_run ebody)
         then
           let m = real (run_value ip) +
                   real (run_value fp) / 10 ^ length (filter (\<lambda>c. c \<noteq> CHR ''_'') fp)
           in Inr (sgn * (if rest = [] then m
                          else if eneg then m / 10 ^ run_value ebody
                          else m * 10 ^ run_value ebody))
         else Inl ValueError)"

section \<open>Dynamic values and dictionaries\<close>

text \<open>
  The values that callers pass in option dictionaries and that event properties hold.
  A dictionary is an association list in insertion order; its keys are compared as
  Python compares them, so that the integer \<open>1\<close> and the float \<open>1.0\<close> are one key.
\<close>

datatype pyval = PInt int | PFloat real | PStr string | PTuple "pyval list"
  | PList "pyval list" | PDict "(pyval \<times> pyval) list"

type_synonym pydict = "(pyval \<times> pyval) list"

definition key_eq :: "pyval \<Rightarrow> pyval \<Rightarrow> bool" where
  "key_eq a b =
     (case (a, b) of
        (PInt i, PFloat x) \<Rightarrow> of_int i = x
      | (PFloat x, PInt i) \<Rightarrow> x = of_int i
      | _ \<Rightarrow> a = b)"

fun dict_get :: "pydict \<Rightarrow> pyval \<Rightarrow> pyval option" where
  "dict_get [] k = None"
| "dict_get ((k', v) # kvs) k = (if key_eq k' k then Some v else dict_get kvs k)"

text \<open>\<^verbatim>\<open>d[k] = v\<close>: an existing key keeps its place (and its first spelling).\<close>

fun dict_set :: "pydict \<Rightarrow> pyval \<Rightarrow> pyval \<Rightarrow> pydict" where
  "dict_set [] k v = [(k, v)]"
| "dict_set ((k', v') # kvs) k v =
     (if key_eq k' k then (k', v) # kvs else (k', v') # dict_set kvs k v)"

text \<open>\<^verbatim>\<open>d[k]\<close> raises \<^verbatim>\<open>KeyError\<close> on a missing key.\<close>

definition dict_item :: "pydict \<Rightarrow> pyval \<Rightarrow> error + pyval" where
  "dict_item d k = (case dict_get d k of None \<Rightarrow> Inl KeyError | Some v \<Rightarrow> Inr v)"

text \<open>\<^verbatim>\<open>v[i]\<close> on a dynamic value: sequences and strings are indexed, dictionaries looked up.\<close>

definition subscript :: "pyval \<Rightarrow> int \<Rightarrow> error + pyval" where
  "subscript v i =
     (case v of
        PTuple xs \<Rightarrow> py_index xs i
      | PList xs \<Rightarrow> py_index xs i
      | PStr s \<Rightarrow> (case py_index s i of Inl e \<Rightarrow> Inl e | Inr c \<Rightarrow> Inr (PStr [c]))
      | PDict d \<Rightarrow> dict_item d (PInt i)
      | _ \<Rightarrow> Inl TypeError)"

text \<open>
  \<^verbatim>\<open>"%.1f" % v\<close> on a dynamic value: a number is printed, a one-element tuple stands
  for its element, anything else is a \<^verbatim>\<open>TypeError\<close>.
\<close>

definition number_of :: "pyval \<Rightarrow> error + real" where
  "number_of v =
     (case v of
        PInt i \<Rightarrow> Inr (of_int i)
      | PFloat x \<Rightarrow> Inr x
      | PTuple [PInt i] \<Rightarrow> Inr (of_int i)
      | PTuple [PFloat x] \<Rightarrow> Inr x
      | _ \<Rightarrow> Inl TypeError)"

definition fmt_1f :: "pyval \<Rightarrow> error + string" where
  "fmt_1f v = (case number_of v of Inl e \<Rightarrow> Inl e | Inr x \<Rightarrow> Inr (fmt_f 1 x))"

text \<open>\<^verbatim>\<open>a += b\<close> on property values: numbers add, strings and lists concatenate.\<close>

definition py_add :: "pyval \<Rightarrow> pyval \<Rightarrow> error + pyval" where
  "py_add a b =
     (case (a, b) of
        (PInt i, PInt j) \<Rightarrow> Inr (PInt (i + j))
      | (PInt i, PFloat y) \<Rightarrow> Inr (PFloat (of_int i + y))
      | (PFloat x, PInt j) \<Rightarrow> Inr (PFloat (x + of_int j))
      | (PFloat x, PFloat y) \<Rightarrow> Inr (PFloat (x + y))
      | (PStr s, PStr t) \<Rightarrow> Inr (PStr (s @ t))
      | (PList xs, PList ys) \<Rightarrow> Inr (PList (xs @ ys))
      | (PTuple xs, PTuple ys) \<Rightarrow> Inr (PTuple (xs @ ys))
      | _ \<Rightarrow> Inl TypeError)"

section \<open>Event objects\<close>

text \<open>
  \<^verbatim>\<open>history.py\<close> imports its event classes from the module \<^verbatim>\<open>events\<close>, which is not
  among the sources. What the wrapper reads and writes of an event object is visible in
  \<^verbatim>\<open>history.py\<close>: the attributes \<^verbatim>\<open>event_type\<close>, \<^verbatim>\<open>event_lines\<close>, \<^verbatim>\<open>properties\<close>,
  \<^verbatim>\<open>layers\<close> (each layer with its own \<^verbatim>\<open>properties\<close>) and \<^verbatim>\<open>num_layers\<close>. The
  fields \<open>decoded_properties\<close> and \<open>decoded_layers\<close> keep what the last decoding or
  encoding saw, so that a later change of a property can be told from none.
\<close>

datatype event_class = Fault | Shear | Fold | Unconformity | Stratigraphy | Tilt | Dyke
  | Plug | Strain

record layer =
  layer_properties :: pydict

record event =
  event_class :: event_class
  event_type :: string
  event_lines :: "string list"
  properties :: pydict
  layers :: "layer list"
  num_layers :: "pyval option"
  decoded_properties :: pydict
  decoded_layers :: "layer list"

definition class_tag :: "event_class \<Rightarrow> string" where
  "class_tag c =
     (case c of Fault \<Rightarrow> ''FAULT'' | Shear \<Rightarrow> ''SHEAR_ZONE'' | Fold \<Rightarrow> ''FOLD''
      | Unconformity \<Rightarrow> ''UNCONFORMITY'' | Stratigraphy \<Rightarrow> ''STRATIGRAPHY'' | Tilt \<Rightarrow> ''TILT''
      | Dyke \<Rightarrow> ''DYKE'' | Plug \<Rightarrow> ''PLUG'' | Strain \<Rightarrow> ''STRAIN'')"

text \<open>
  Modelled from the spec: the decoding of the Event Codec (module \<^verbatim>\<open>events\<close>) is missing.
  Every line of the form \<open>label = value\<close> becomes a property, the label trimmed of tabs
  and white space, a repeated label keeping its first value; a value that reads as a
  number is a float, any other a string.
\<close>

definition property_of_line :: "string \<Rightarrow> (string \<times> string) option" where
  "property_of_line line =
     (if CHR ''='' \<in> set line
      then Some (strip (takeWhile (\<lambda>c. c \<noteq> CHR ''='') line),
                 strip (drop 1 (dropWhile (\<lambda>c. c \<noteq> CHR ''='') line)))
      else None)"

definition scalar_of :: "string \<Rightarrow> pyval" where
  "scalar_of t = (case py_float t of Inr x \<Rightarrow> PFloat x | Inl e \<Rightarrow> PStr t)"

definition add_property :: "pydict \<Rightarrow> string \<Rightarrow> pydict" where
  "add_property d line =
     (case property_of_line line of
        None \<Rightarrow> d
      | Some (k, t) \<Rightarrow> (case dict_get d (PStr k) of None \<Rightarrow> d @ [(PStr k, scalar_of t)] | Some v \<Rightarrow> d))"

definition parse_properties :: "string list \<Rightarrow> pydict" where
  "parse_properties ls = foldl add_property [] ls"

text \<open>
  Modelled from the spec: for Stratigraphy and Unconformity events the repeated per-layer
  blocks, each opened by its \<open>Unit Name\<close> line, become the layers; as many layers are
  kept as blocks are found.
\<close>

definition is_unit_name :: "string \<Rightarrow> bool" where
  "is_unit_name line = (case property_of_line line of None \<Rightarrow> False | Some (k, t) \<Rightarrow> k = ''Unit Name'')"

definition add_layer_line :: "string list list \<Rightarrow> string \<Rightarrow> string list list" where
  "add_layer_line bs line =
     (if is_unit_name line then bs @ [[line]]
      else if bs = [] then []
      else butlast bs @ [last bs @ [line]])"

definition parse_layers :: "event_class \<Rightarrow> string list \<Rightarrow> layer list" where
  "parse_layers c ls =
     (if c = Stratigraphy \<or> c = Unconformity
      then map (\<lambda>b. \<lparr>layer_properties = parse_properties b\<rparr>) (foldl add_layer_line [] ls)
      else [])"

text \<open>
  Modelled from the spec: constructing an event of a class from its lines
  (\<^verbatim>\<open>events.Fault(lines=...)\<close>, or the empty constructor followed by
  \<^verbatim>\<open>set_event_lines\<close>): the lines are kept as they are and decoded.
\<close>

definition decode_event :: "event_class \<Rightarrow> string list \<Rightarrow> event" where
  "decode_event c ls =
     \<lparr>event_class = c, event_type = class_tag c, event_lines = ls,
      properties = parse_properties ls, layers = parse_layers c ls, num_layers = None,
      decoded_properties = parse_properties ls, decoded_layers = parse_layers c ls\<rparr>"

text \<open>
  Modelled from the spec: \<^verbatim>\<open>set_event_number\<close> rewrites the embedded order field, the
  header line \<open>Event #n = TYPE\<close> that opens the event's lines.
\<close>

definition event_header :: "int \<Rightarrow> string \<Rightarrow> string" where
  "event_header n t = ''Event #'' @ fmt_d n @ [TAB] @ ''= '' @ t @ [NL]"

definition set_event_number :: "int \<Rightarrow> event \<Rightarrow> event" where
  "set_event_number n ev = ev\<lparr>event_lines := (event_lines ev)[0 := event_header n (event_type ev)]\<rparr>"

text \<open>
  Modelled from the spec: \<^verbatim>\<open>update_properties\<close> regenerates the lines from the
  properties and layers on demand and uses them verbatim if nothing changed since
  decoding. The regenerated text itself (\<open>encode\<close>) is a parameter: the specification
  leaves the number format of each field open.
\<close>

definition update_properties :: "(event \<Rightarrow> string list) \<Rightarrow> event \<Rightarrow> event" where
  "update_properties encode ev =
     (if properties ev = decoded_properties ev \<and> layers ev = decoded_layers ev then ev
      else ev\<lparr>event_lines := encode ev, decoded_properties := properties ev,
               decoded_layers := layers ev\<rparr>)"

section \<open>The history object\<close>

text \<open>
  The attributes of a \<^verbatim>\<open>NoddyHistory\<close> object. An attribute that \<^verbatim>\<open>hasattr\<close> may find
  missing is an option. The dictionary \<^verbatim>\<open>events\<close> maps an order number to a reference
  into \<open>objects\<close>, the store of event objects: Python keeps references, and two keys
  may share one object.
\<close>

record raw_event =
  rtype :: string
  rnum :: int
  line_start :: int
  line_end :: "int option"

record history =
  history_lines :: "string list"
  footer_lines :: "string list option"
  n_events :: "int option"
  raw_events :: "raw_event list"
  events :: "(int \<times> nat) list"
  objects :: "event list"
  all_events_begin :: "int option"
  all_events_end :: "int option"
  event_counter :: "int option"
  filename :: "string option"
  header_lines :: "string option"
  cube_size :: "real option"
  zmax :: "pyval option"

text \<open>
  The long text templates of class \<^verbatim>\<open>_Templates\<close> are parameters of the model: what
  is proved of a builder holds for whatever text the template has. The short template
  of a stratigraphic layer is the constant \<open>strati_layer\<close> below.
\<close>

record templates =
  t_fault :: string
  t_fold :: string
  t_tilt :: string
  t_unconformity :: string
  t_footer :: string

text \<open>The object before \<^verbatim>\<open>__init__\<close> has set any attribute.\<close>

definition blank_history :: history where
  "blank_history =
     \<lparr>history_lines = [], footer_lines = None, n_events = None, raw_events = [], events = [],
      objects = [], all_events_begin = None, all_events_end = None, event_counter = None,
      filename = None, header_lines = None, cube_size = None, zmax = None\<rparr>"

text \<open>The dictionary \<^verbatim>\<open>self.events\<close>: lookup, and assignment that keeps a key's place.\<close>

fun events_set :: "(int \<times> nat) list \<Rightarrow> int \<Rightarrow> nat \<Rightarrow> (int \<times> nat) list" where
  "events_set [] k r = [(k, r)]"
| "events_set ((k', r') # kvs) k r =
     (if k' = k then (k, r) # kvs else (k', r') # events_set kvs k r)"

definition event_at :: "history \<Rightarrow> int \<Rightarrow> event option" where
  "event_at h k = (case map_of (events h) k of None \<Rightarrow> None | Some r \<Rightarrow> Some (objects h ! r))"

text \<open>
  A method returns the object as it leaves it, and either the exception it raised or its
  result. \<open>bindE\<close> chains computations that may raise.
\<close>

definition bindE :: "error + 'a \<Rightarrow> ('a \<Rightarrow> error + 'b) \<Rightarrow> error + 'b" where
  "bindE m f = (case m of Inl e \<Rightarrow> Inl e | Inr x \<Rightarrow> f x)"

subsection \<open>Footer: \<^verbatim>\<open>get_footer_lines\<close>, \<^verbatim>\<open>create_footer_from_template\<close>, cube size\<close>

definition create_footer_from_template :: "templates \<Rightarrow> history \<Rightarrow> history" where
  "create_footer_from_template T h =
     h\<lparr>footer_lines :=
         Some (map (\<lambda>line. replace ''    '' [TAB] line @ [NL]) (split_on NL (t_footer T)))\<rparr>"

text \<open>\<^verbatim>\<open>if not hasattr(self, "footer_lines"): self.create_footer_from_template()\<close>\<close>

definition ensure_footer :: "templates \<Rightarrow> history \<Rightarrow> history" where
  "ensure_footer T h = (case footer_lines h of None \<Rightarrow> create_footer_from_template T h | Some fl \<Rightarrow> h)"

definition footer_of :: "history \<Rightarrow> string list" where
  "footer_of h = (case footer_lines h of None \<Rightarrow> [] | Some fl \<Rightarrow> fl)"

text \<open>
  \<^verbatim>\<open>get_footer_lines\<close>: the loop leaves \<open>i\<close> at the first line with \<^verbatim>\<open>#BlockOptions\<close>, or at
  the last line when there is none; on an empty list \<open>i\<close> is never bound.
\<close>

definition get_footer_lines :: "history \<Rightarrow> history \<times> (error + unit)" where
  "get_footer_lines h =
     (let hl = history_lines h; k = length (takeWhile (\<lambda>l. \<not> str_in ''#BlockOptions'' l) hl)
      in if hl = [] then (h, Inl UnboundLocalError)
         else (h\<lparr>footer_lines := Some (drop (if k < length hl then k else length hl - 1) hl)\<rparr>,
               Inr ()))"

definition load_history :: "string list \<Rightarrow> history \<Rightarrow> history \<times> (error + unit)" where
  "load_history ls h = get_footer_lines (h\<lparr>history_lines := ls\<rparr>)"

definition cube_string :: "string option \<Rightarrow> string" where
  "cube_string sim_type =
     (if str_in ''Geology'' (case sim_type of None \<Rightarrow> ''Geophysics'' | Some t \<Rightarrow> t)
      then ''Geology Cube Size'' else ''Geophysics Cube Size'')"

fun find_cube_size :: "string \<Rightarrow> string list \<Rightarrow> error + real option" where
  "find_cube_size cs [] = Inr None"
| "find_cube_size cs (line # ls) =
     (if str_in cs line
      then bindE (py_index (split_on (CHR ''='') line) 1)
             (\<lambda>t. bindE (py_float (rstrip t)) (\<lambda>x. Inr (Some x)))
      else find_cube_size cs ls)"

definition get_cube_size ::
  "templates \<Rightarrow> string option \<Rightarrow> history \<Rightarrow> history \<times> (error + real option)" where
  "get_cube_size T sim_type h =
     (case find_cube_size (cube_string sim_type) (footer_of (ensure_footer T h)) of
        Inl e \<Rightarrow> (ensure_footer T h, Inl e)
      | Inr None \<Rightarrow> (ensure_footer T h, Inr None)
      | Inr (Some x) \<Rightarrow> ((ensure_footer T h)\<lparr>cube_size := Some x\<rparr>, Inr (Some x)))"

text \<open>\<^verbatim>\<open>l[0] + "=" + '%7.2f\r\n' % cube_size\<close> for \<^verbatim>\<open>l = line.split('=')\<close>\<close>

definition cube_line :: "real \<Rightarrow> string \<Rightarrow> string" where
  "cube_line v line =
     hd (split_on (CHR ''='') line) @ ''='' @ pad_left 7 (CHR '' '') (fmt_f 2 v) @ [CR, NL]"

text \<open>
  One pass of the loop of \<^verbatim>\<open>change_cube_size\<close>: both tests read the line as it was
  before the pass, the second assignment overwrites the first.
\<close>

definition change_cube_line :: "real \<Rightarrow> string \<Rightarrow> string" where
  "change_cube_line v line =
     (if str_in ''Geology Cube Size'' line then cube_line v line
      else (if str_in ''Geophysics Cube Size'' line then cube_line v line else line))"

definition change_cube_size :: "templates \<Rightarrow> real \<Rightarrow> history \<Rightarrow> history \<times> (error + unit)" where
  "change_cube_size T v h =
     ((ensure_footer T h)\<lparr>footer_lines :=
         Some (map (change_cube_line v) (footer_of (ensure_footer T h)))\<rparr>, Inr ())"

subsection \<open>The anchor scan: \<^verbatim>\<open>determine_events\<close>\<close>

record scan_state =
  sc_n_events :: "int option"
  sc_raw :: "raw_event list"
  sc_stop :: "int option"

text \<open>One pass of the first loop, at line \<open>i\<close>.\<close>

definition scan_step :: "int \<Rightarrow> string \<Rightarrow> scan_state \<Rightarrow> error + scan_state" where
  "scan_step i line st =
     (if str_in ''No of Events'' line
      then bindE (py_index (split_on (CHR ''='') line) 1)
             (\<lambda>t. bindE (py_int t) (\<lambda>n. Inr (st\<lparr>sc_n_events := Some n\<rparr>)))
      else if str_in ''Event #'' line
      then bindE (py_index (split_on (CHR ''='') line) 1)
             (\<lambda>t. bindE (py_int (py_slice line 7 9))
                (\<lambda>n. Inr (st\<lparr>sc_raw := sc_raw st @
                        [\<lparr>rtype = rstrip t, rnum = n, line_start = i, line_end = None\<rparr>]\<rparr>)))
      else if str_in ''BlockOptions'' line then Inr (st\<lparr>sc_stop := Some (i - 2)\<rparr>)
      else Inr st)"

fun scan_lines :: "int \<Rightarrow> string list \<Rightarrow> scan_state \<Rightarrow> error + scan_state" where
  "scan_lines i [] st = Inr st"
| "scan_lines i (line # ls) st = bindE (scan_step i line st) (scan_lines (i + 1) ls)"

text \<open>
  The second loop: every event but the last ends on the line before its successor starts.
\<close>

fun set_line_ends :: "raw_event list \<Rightarrow> raw_event list" where
  "set_line_ends (e # e' # es) = e\<lparr>line_end := Some (line_start e' - 1)\<rparr> # set_line_ends (e' # es)"
| "set_line_ends es = es"

text \<open>
  \<^verbatim>\<open>self._raw_events[-1]['line_end'] = last_event_stop\<close>: the right-hand side is read
  first, and is unbound when no line held \<^verbatim>\<open>BlockOptions\<close>.
\<close>

definition set_last_end :: "int option \<Rightarrow> raw_event list \<Rightarrow> error + raw_event list" where
  "set_last_end stop es =
     (case stop of
        None \<Rightarrow> Inl UnboundLocalError
      | Some s \<Rightarrow> if es = [] then Inl IndexError
                  else Inr (butlast es @ [(last es)\<lparr>line_end := Some s\<rparr>]))"

definition anchor_scan :: "string list \<Rightarrow> error + scan_state" where
  "anchor_scan hl =
     bindE (scan_lines 0 hl \<lparr>sc_n_events = None, sc_raw = [], sc_stop = None\<rparr>)
       (\<lambda>st. bindE (set_last_end (sc_stop st) (set_line_ends (sc_raw st)))
          (\<lambda>es. Inr (st\<lparr>sc_raw := es\<rparr>)))"

text \<open>The chain of tests on the declared type; no match prints a warning and skips the event.\<close>

definition class_of_type :: "string \<Rightarrow> event_class option" where
  "class_of_type t =
     (if str_in ''FAULT'' t then Some Fault
      else if str_in ''SHEAR_ZONE'' t then Some Shear
      else if str_in ''FOLD'' t then Some Fold
      else if str_in ''UNCONFORMITY'' t then Some Unconformity
      else if str_in ''STRATIGRAPHY'' t then Some Stratigraphy
      else if str_in ''TILT'' t then Some Tilt
      else if str_in ''DYKE'' t then Some Dyke
      else if str_in ''PLUG'' t then Some Plug
      else if str_in ''STRAIN'' t then Some Strain
      else None)"

text \<open>One pass of the loop that creates the event objects.\<close>

definition create_event :: "string list \<Rightarrow> raw_event \<Rightarrow> history \<Rightarrow> error + history" where
  "create_event hl e h =
     (case line_end e of
        None \<Rightarrow> Inl KeyError
      | Some stop \<Rightarrow>
          (case class_of_type (rtype e) of
             None \<Rightarrow> Inr h
           | Some c \<Rightarrow>
               Inr (h\<lparr>events := events_set (events h) (rnum e) (length (objects h)),
                      objects := objects h @ [decode_event c (py_slice hl (line_start e) (stop + 1))]\<rparr>)))"

fun create_events :: "string list \<Rightarrow> raw_event list \<Rightarrow> history \<Rightarrow> error + history" where
  "create_events hl [] h = Inr h"
| "create_events hl (e # es) h = bindE (create_event hl e h) (create_events hl es)"

definition determine_events :: "history \<Rightarrow> error + history" where
  "determine_events h =
     bindE (anchor_scan (history_lines h))
       (\<lambda>st. bindE (create_events (history_lines h) (sc_raw st)
                      (h\<lparr>n_events := sc_n_events st, raw_events := sc_raw st, events := []\<rparr>))
          (\<lambda>h'. Inr (h'\<lparr>all_events_begin := Some (line_start (hd (sc_raw st))),
                          all_events_end := line_end (last (sc_raw st))\<rparr>)))"

text \<open>
  \<^verbatim>\<open>NoddyHistory(history)\<close> on the lines of the named file: an exception in the
  constructor leaves the caller without an object.
\<close>

definition NoddyHistory_load :: "string list \<Rightarrow> error + history" where
  "NoddyHistory_load ls =
     (case load_history ls blank_history of
        (h, Inl e) \<Rightarrow> Inl e
      | (h, Inr u) \<Rightarrow> determine_events h)"

text \<open>\<^verbatim>\<open>NoddyHistory()\<close>: \<^verbatim>\<open>create_new_history\<close>.\<close>

definition create_new_history :: "history \<Rightarrow> history" where
  "create_new_history h =
     h\<lparr>event_counter := Some 0, all_events_begin := Some 7, all_events_end := Some 7,
       history_lines := [], events := []\<rparr>"

definition NoddyHistory_new :: history where
  "NoddyHistory_new = create_new_history blank_history"

subsection \<open>Reordering: \<^verbatim>\<open>swap_events\<close>, \<^verbatim>\<open>update_event_numbers\<close>\<close>

definition update_event_numbers :: "history \<Rightarrow> history" where
  "update_event_numbers h =
     h\<lparr>objects := foldl (\<lambda>objs (k, r). objs[r := set_event_number k (objs ! r)])
                        (objects h) (events h)\<rparr>"

definition swap_events :: "int \<Rightarrow> int \<Rightarrow> history \<Rightarrow> history \<times> (error + unit)" where
  "swap_events a b h =
     (case map_of (events h) a of
        None \<Rightarrow> (h, Inl KeyError)
      | Some ra \<Rightarrow>
          (case map_of (events h) b of
             None \<Rightarrow> (h, Inl KeyError)
           | Some rb \<Rightarrow>
               (update_event_numbers (h\<lparr>events := events_set (events_set (events h) a rb) b ra\<rparr>),
                Inr ())))"

definition update_all_event_properties :: "(event \<Rightarrow> string list) \<Rightarrow> history \<Rightarrow> history" where
  "update_all_event_properties encode h =
     h\<lparr>objects := foldl (\<lambda>objs (k, r). objs[r := update_properties encode (objs ! r)])
                        (objects h) (events h)\<rparr>"

subsection \<open>Parameters: \<^verbatim>\<open>set_event_params\<close>, \<^verbatim>\<open>change_event_params\<close>\<close>

text \<open>A loop over items whose body may raise: the object keeps what the passes before did.\<close>

fun for_each ::
  "('x \<Rightarrow> history \<Rightarrow> history \<times> (error + unit)) \<Rightarrow> 'x list \<Rightarrow> history \<Rightarrow> history \<times> (error + unit)" where
  "for_each f [] h = (h, Inr ())"
| "for_each f (x # xs) h =
     (case f x h of (h', Inl e) \<Rightarrow> (h', Inl e) | (h', Inr u) \<Rightarrow> for_each f xs h')"

text \<open>\<^verbatim>\<open>self.events[key].properties[sub_key] = val\<close>\<close>

definition set_param :: "int \<Rightarrow> pyval \<Rightarrow> pyval \<Rightarrow> history \<Rightarrow> history \<times> (error + unit)" where
  "set_param key sub_key val h =
     (case map_of (events h) key of
        None \<Rightarrow> (h, Inl KeyError)
      | Some r \<Rightarrow>
          (h\<lparr>objects := (objects h)
               [r := (objects h ! r)\<lparr>properties := dict_set (properties (objects h ! r)) sub_key val\<rparr>]\<rparr>,
           Inr ()))"

definition set_event_params ::
  "(int \<times> pydict) list \<Rightarrow> history \<Rightarrow> history \<times> (error + unit)" where
  "set_event_params params_dict h =
     for_each (\<lambda>(key, sub_dict). for_each (\<lambda>(sub_key, val). set_param key sub_key val) sub_dict)
       params_dict h"

text \<open>\<^verbatim>\<open>d[k] += v\<close> on a property dictionary.\<close>

definition dict_add :: "pydict \<Rightarrow> pyval \<Rightarrow> pyval \<Rightarrow> error + pydict" where
  "dict_add d k v = bindE (dict_item d k) (\<lambda>old. bindE (py_add old v) (\<lambda>new. Inr (dict_set d k new)))"

text \<open>\<^verbatim>\<open>val['property']\<close>: only a dictionary can be asked for a string key.\<close>

definition str_item :: "pyval \<Rightarrow> string \<Rightarrow> error + pyval" where
  "str_item v k = (case v of PDict d \<Rightarrow> dict_item d (PStr k) | _ \<Rightarrow> Inl TypeError)"

text \<open>
  \<^verbatim>\<open>self.events[key].layers[sub_key].properties[val['property']] += val['val']\<close>: the
  target and its key are evaluated and read before the right-hand side.
\<close>

definition change_layer_param :: "event \<Rightarrow> int \<Rightarrow> pyval \<Rightarrow> error + event" where
  "change_layer_param ev i val =
     bindE (py_index (layers ev) i)
       (\<lambda>l. bindE (str_item val ''property'')
          (\<lambda>name. bindE (dict_item (layer_properties l) name)
             (\<lambda>old. bindE (str_item val ''val'')
                (\<lambda>d. bindE (py_add old d)
                   (\<lambda>new. Inr (ev\<lparr>layers := (layers ev)
                        [nat (if i < 0 then int (length (layers ev)) + i else i) :=
                           l\<lparr>layer_properties := dict_set (layer_properties l) name new\<rparr>]\<rparr>))))))"

definition change_param :: "int \<Rightarrow> pyval \<Rightarrow> pyval \<Rightarrow> history \<Rightarrow> history \<times> (error + unit)" where
  "change_param key sub_key val h =
     (case map_of (events h) key of
        None \<Rightarrow> (h, Inl KeyError)
      | Some r \<Rightarrow>
          (case (case sub_key of
                   PInt i \<Rightarrow> change_layer_param (objects h ! r) i val
                 | _ \<Rightarrow> bindE (dict_add (properties (objects h ! r)) sub_key val)
                          (\<lambda>d. Inr ((objects h ! r)\<lparr>properties := d\<rparr>)))
           of Inl e \<Rightarrow> (h, Inl e)
            | Inr ev \<Rightarrow> (h\<lparr>objects := (objects h)[r := ev]\<rparr>, Inr ())))"

definition change_event_params ::
  "(int \<times> pydict) list \<Rightarrow> history \<Rightarrow> history \<times> (error + unit)" where
  "change_event_params changes_dict h =
     for_each (\<lambda>(key, sub_dict). for_each (\<lambda>(sub_key, val). change_param key sub_key val) sub_dict)
       changes_dict h"

subsection \<open>The event builders\<close>

definition strati_layer :: string where
  "strati_layer =
      ''    Unit Name    = $NAME$\<newline>'' @
      ''    Height    = $HEIGHT$\<newline>'' @
      ''    Apply Alterations    = ON\<newline>'' @
      ''    Density    = $DENSITY$\<newline>'' @
      ''    Anisotropic Field    = 0\<newline>'' @
      ''    MagSusX    = 1.60e-003\<newline>'' @
      ''    MagSusY    = 1.60e-003\<newline>'' @
      ''    MagSusZ    = 1.60e-003\<newline>'' @
      ''    MagSus Dip    = 9.00e+001\<newline>'' @
      ''    MagSus DipDir    = 9.00e+001\<newline>'' @
      ''    MagSus Pitch    = 0.00e+000\<newline>'' @
      ''    Remanent Magnetization    = 0\<newline>'' @
      ''    Inclination    =  30.00\<newline>'' @
      ''    Angle with the Magn. North    =  30.00\<newline>'' @
      ''    Strength    = 1.60e-003\<newline>'' @
      ''    Color Name    = Color 92\<newline>'' @
      ''    Red    = 0\<newline>'' @
      ''    Green    = 153\<newline>'' @
      ''    Blue    = 48 ''"

text \<open>\<^verbatim>\<open>event_options[k]\<close> and \<^verbatim>\<open>event_options.get(k, default)\<close>\<close>

definition opt_item :: "pydict \<Rightarrow> string \<Rightarrow> error + pyval" where
  "opt_item opts k = dict_item opts (PStr k)"

definition opt_get :: "pydict \<Rightarrow> string \<Rightarrow> pyval \<Rightarrow> pyval" where
  "opt_get opts k d = (case dict_get opts (PStr k) of None \<Rightarrow> d | Some v \<Rightarrow> v)"

text \<open>The second argument of \<^verbatim>\<open>str.replace\<close> must be a string.\<close>

definition str_arg :: "pyval \<Rightarrow> error + string" where
  "str_arg v = (case v of PStr s \<Rightarrow> Inr s | _ \<Rightarrow> Inl TypeError)"

text \<open>
  \<^verbatim>\<open>"%s" % v\<close>: the text of a string or an integer; the text of any other value is
  outside the model.
\<close>

definition fmt_s :: "pyval \<Rightarrow> error + string" where
  "fmt_s v =
     (case v of PStr s \<Rightarrow> Inr s | PInt i \<Rightarrow> Inr (fmt_d i) | PTuple [PStr s] \<Rightarrow> Inr s
      | _ \<Rightarrow> Inl OutOfModel)"

text \<open>\<^verbatim>\<open>"%d" % v\<close> truncates a float towards zero.\<close>

definition fmt_dv :: "pyval \<Rightarrow> error + string" where
  "fmt_dv v = bindE (number_of v) (\<lambda>x. Inr (fmt_d (if 0 \<le> x then \<lfloor>x\<rfloor> else \<lceil>x\<rceil>)))"

text \<open>\<^verbatim>\<open>range(v)\<close> takes an integer only.\<close>

definition py_range :: "pyval \<Rightarrow> error + int list" where
  "py_range v = (case v of PInt n \<Rightarrow> Inr (map int [0..<nat n]) | _ \<Rightarrow> Inl TypeError)"

text \<open>
  \<^verbatim>\<open>np.cumsum\<close> on a list of numbers: the running sums. A single number counts as a
  list of one; nested lists, which numpy flattens, are outside the model.
\<close>

fun cumsum_from :: "real \<Rightarrow> real list \<Rightarrow> real list" where
  "cumsum_from acc [] = []"
| "cumsum_from acc (x # xs) = (acc + x) # cumsum_from (acc + x) xs"

definition element_number :: "pyval \<Rightarrow> error + real" where
  "element_number v =
     (case v of PInt i \<Rightarrow> Inr (of_int i) | PFloat x \<Rightarrow> Inr x
      | PList xs \<Rightarrow> Inl OutOfModel | PTuple xs \<Rightarrow> Inl OutOfModel | _ \<Rightarrow> Inl TypeError)"

fun element_numbers :: "pyval list \<Rightarrow> error + real list" where
  "element_numbers [] = Inr []"
| "element_numbers (v # vs) =
     bindE (element_number v) (\<lambda>x. bindE (element_numbers vs) (\<lambda>xs. Inr (x # xs)))"

definition cumsum_val :: "pyval \<Rightarrow> error + real list" where
  "cumsum_val v =
     (case v of
        PList xs \<Rightarrow> bindE (element_numbers xs) (\<lambda>ns. Inr (cumsum_from 0 ns))
      | PTuple xs \<Rightarrow> bindE (element_numbers xs) (\<lambda>ns. Inr (cumsum_from 0 ns))
      | PInt i \<Rightarrow> Inr [of_int i]
      | PFloat x \<Rightarrow> Inr [x]
      | _ \<Rightarrow> Inl TypeError)"

text \<open>
  A chain of \<^verbatim>\<open>text = text.replace(placeholder, value)\<close> statements: each value is
  computed when its statement is reached, and the first that raises ends the chain.
\<close>

fun subst_all :: "(string \<times> (error + string)) list \<Rightarrow> string \<Rightarrow> error + string" where
  "subst_all [] t = Inr t"
| "subst_all ((ph, m) # rest) t = bindE m (\<lambda>r. subst_all rest (replace ph r t))"

definition req_1f :: "pydict \<Rightarrow> string \<Rightarrow> error + string" where
  "req_1f opts k = bindE (opt_item opts k) fmt_1f"

definition def_1f :: "pydict \<Rightarrow> string \<Rightarrow> real \<Rightarrow> error + string" where
  "def_1f opts k d = fmt_1f (opt_get opts k (PFloat d))"

text \<open>\<^verbatim>\<open>"%.1f" % event_options['pos'][i]\<close>\<close>

definition pos_1f :: "pydict \<Rightarrow> int \<Rightarrow> error + string" where
  "pos_1f opts i = bindE (opt_item opts ''pos'') (\<lambda>p. bindE (subscript p i) fmt_1f)"

text \<open>
  The z-coordinate: the test \<^verbatim>\<open>event_options['pos'] == 'top'\<close> compares the whole
  position with the string; \<^verbatim>\<open>self.zmax\<close> is an attribute that no method sets.
\<close>

definition pos_z :: "pyval option \<Rightarrow> pydict \<Rightarrow> error + string" where
  "pos_z zm opts =
     bindE (opt_item opts ''pos'')
       (\<lambda>p. if p = PStr ''top''
            then (case zm of None \<Rightarrow> Inl AttributeError | Some z \<Rightarrow> fmt_1f z)
            else bindE (subscript p 2) fmt_1f)"

text \<open>The event lines: an empty first line, then the given lines, each closed by a newline.\<close>

definition event_text_lines :: "string list \<Rightarrow> string list" where
  "event_text_lines ls = map (\<lambda>l. l @ [NL]) ([] # ls)"

definition create_fault :: "pyval option \<Rightarrow> templates \<Rightarrow> pydict \<Rightarrow> error + event" where
  "create_fault zm T opts =
     bindE (subst_all
        [(''$NAME$'', bindE (opt_item opts ''name'') str_arg),
         (''$POS_X$'', pos_1f opts 0),
         (''$POS_Y$'', pos_1f opts 1),
         (''$POS_Z$'', pos_z zm opts),
         (''$DIP_DIR$'', req_1f opts ''dip_dir''),
         (''$DIP$'', req_1f opts ''dip''),
         (''$SLIP$'', req_1f opts ''slip''),
         (''$MOVEMENT$'', fmt_s (opt_get opts ''movement'' (PStr ''Hanging Wall''))),
         (''$GEOMETRY$'', fmt_s (opt_get opts ''geometry'' (PStr ''Translation''))),
         (''$ROTATION$'', def_1f opts ''rotation'' 30),
         (''$AMPLITUDE$'', def_1f opts ''amplitude'' 2000),
         (''$RADIUS$'', def_1f opts ''radius'' 1000),
         (''$XAXIS$'', def_1f opts ''xaxis'' 2000),
         (''$YAXIS$'', def_1f opts ''yaxis'' 2000),
         (''$ZAXIS$'', def_1f opts ''zaxis'' 2000)] (t_fault T))
       (\<lambda>text. Inr (decode_event Fault (event_text_lines (split_on NL text))))"

text \<open>\<^verbatim>\<open>_create_fold\<close> builds its event with the class \<^verbatim>\<open>events.Fault\<close>, as the source does.\<close>

definition create_fold :: "pyval option \<Rightarrow> templates \<Rightarrow> pydict \<Rightarrow> error + event" where
  "create_fold zm T opts =
     bindE (subst_all
        [(''$NAME$'', bindE (opt_item opts ''name'') str_arg),
         (''$POS_X$'', pos_1f opts 0),
         (''$POS_Y$'', pos_1f opts 1),
         (''$POS_Z$'', pos_z zm opts),
         (''$WAVELENGTH$'', req_1f opts ''wavelength''),
         (''$AMPLITUDE$'', req_1f opts ''amplitude''),
         (''$DIP_DIR$'', def_1f opts ''dip_dir'' 90),
         (''$DIP$'', def_1f opts ''dip'' 90)] (t_fold T))
       (\<lambda>text. Inr (decode_event Fault (event_text_lines (split_on NL text))))"

definition create_tilt :: "pyval option \<Rightarrow> templates \<Rightarrow> pydict \<Rightarrow> error + event" where
  "create_tilt zm T opts =
     bindE (subst_all
        [(''$NAME$'', bindE (opt_item opts ''name'') str_arg),
         (''$POS_X$'', pos_1f opts 0),
         (''$POS_Y$'', pos_1f opts 1),
         (''$POS_Z$'', pos_z zm opts),
         (''$ROTATION$'', req_1f opts ''rotation''),
         (''$PLUNGE_DIRECTION$'', req_1f opts ''plunge_direction''),
         (''$PLUNGE$'', req_1f opts ''plunge'')] (t_tilt T))
       (\<lambda>text. Inr (decode_event Tilt (event_text_lines (split_on NL text))))"

text \<open>
  \<^verbatim>\<open>try: density = event_options['density'][i]\<close> with \<^verbatim>\<open>except KeyError: density = 4.0\<close>:
  only a \<^verbatim>\<open>KeyError\<close> is caught.
\<close>

definition layer_density :: "pydict \<Rightarrow> int \<Rightarrow> error + pyval" where
  "layer_density opts i =
     (case bindE (opt_item opts ''density'') (\<lambda>d. subscript d i) of
        Inl KeyError \<Rightarrow> Inr (PFloat 4)
      | r \<Rightarrow> r)"

text \<open>One pass of the layer loop of \<^verbatim>\<open>_create_stratigraphy\<close>: the lines of layer \<open>i\<close>.\<close>

definition strati_layer_lines :: "pydict \<Rightarrow> int \<Rightarrow> error + string list" where
  "strati_layer_lines opts i =
     bindE (bindE (opt_item opts ''layer_names'') (\<lambda>ns. subscript ns i))
       (\<lambda>layer_name. bindE (layer_density opts i)
          (\<lambda>density. bindE (bindE (opt_item opts ''layer_thickness'') cumsum_val)
             (\<lambda>cum_thickness. bindE (str_arg layer_name)
                (\<lambda>name. bindE (py_index cum_thickness i)
                   (\<lambda>height. bindE (number_of density)
                      (\<lambda>d. Inr (split_on NL
                           (replace ''$DENSITY$'' (fmt_e d)
                              (replace ''    '' [TAB]
                                 (replace ''$HEIGHT$'' (fmt_f 1 height)
                                    (replace ''$NAME$'' name strati_layer)))))))))))"

text \<open>The loop over the layers appends the lines of each pass.\<close>

fun layer_loop :: "(int \<Rightarrow> error + string list) \<Rightarrow> int list \<Rightarrow> error + string list" where
  "layer_loop f [] = Inr []"
| "layer_loop f (i # is) = bindE (f i) (\<lambda>ls. bindE (layer_loop f is) (\<lambda>rest. Inr (ls @ rest)))"

text \<open>
  The lines that \<^verbatim>\<open>_create_stratigraphy\<close> hands to \<^verbatim>\<open>set_event_lines\<close>, and the event
  it returns.
\<close>

definition stratigraphy_lines :: "pydict \<Rightarrow> error + string list" where
  "stratigraphy_lines opts =
     bindE (opt_item opts ''num_layers'')
       (\<lambda>n. bindE (fmt_dv n)
          (\<lambda>ntext. bindE (py_range n)
             (\<lambda>idx. bindE (layer_loop (strati_layer_lines opts) idx)
                (\<lambda>lls. Inr (event_text_lines
                     ([[TAB] @ ''Num Layers'' @ [TAB] @ ''= '' @ ntext] @ lls @
                      [[TAB] @ ''Name'' @ [TAB] @ ''= Strat'']))))))"

definition create_stratigraphy :: "pydict \<Rightarrow> error + event" where
  "create_stratigraphy opts =
     bindE (stratigraphy_lines opts)
       (\<lambda>ls. bindE (opt_item opts ''num_layers'')
          (\<lambda>n. Inr ((decode_event Stratigraphy ls)\<lparr>num_layers := Some n\<rparr>)))"

text \<open>The layer loop of \<^verbatim>\<open>_create_unconformity\<close> substitutes no density.\<close>

definition unconformity_layer_lines :: "pydict \<Rightarrow> int \<Rightarrow> error + string list" where
  "unconformity_layer_lines opts i =
     bindE (bindE (opt_item opts ''layer_names'') (\<lambda>ns. subscript ns i))
       (\<lambda>layer_name. bindE (bindE (opt_item opts ''layer_thickness'') cumsum_val)
          (\<lambda>cum_thickness. bindE (str_arg layer_name)
             (\<lambda>name. bindE (py_index cum_thickness i)
                (\<lambda>height. Inr (split_on NL
                     (replace ''    '' [TAB]
                        (replace ''$HEIGHT$'' (fmt_f 1 height)
                           (replace ''$NAME$'' name strati_layer))))))))"

definition create_unconformity :: "pyval option \<Rightarrow> templates \<Rightarrow> pydict \<Rightarrow> error + event" where
  "create_unconformity zm T opts =
     bindE (subst_all
        [(''$NAME$'', bindE (opt_item opts ''name'') str_arg),
         (''$POS_X$'', pos_1f opts 0),
         (''$POS_Y$'', pos_1f opts 1),
         (''$POS_Z$'', pos_z zm opts),
         (''$DIP_DIRECTION$'', req_1f opts ''dip_direction''),
         (''$DIP$'', req_1f opts ''dip'')] (t_unconformity T))
       (\<lambda>text. bindE (opt_item opts ''num_layers'')
          (\<lambda>n. bindE (fmt_dv n)
             (\<lambda>ntext. bindE (py_range n)
                (\<lambda>idx. bindE (layer_loop (unconformity_layer_lines opts) idx)
                   (\<lambda>lls. bindE (fmt_s (opt_get opts ''name'' (PStr ''Unconf'')))
                      (\<lambda>name. Inr (decode_event Unconformity (event_text_lines
                           (split_on NL text @
                            [[TAB] @ ''Num Layers'' @ [TAB] @ ''= '' @ ntext] @ lls @
                            [[TAB] @ ''Name'' @ [TAB] @ ''= '' @ name])))))))))"

subsection \<open>\<^verbatim>\<open>add_event\<close>\<close>

text \<open>
  The builder for an event type and the tag then stored in \<^verbatim>\<open>ev.event_type\<close>; an unknown
  type raises \<^verbatim>\<open>NameError\<close>.
\<close>

definition build_event :: "pyval option \<Rightarrow> templates \<Rightarrow> string \<Rightarrow> pydict \<Rightarrow> error + event" where
  "build_event zm T etype opts =
     (if etype = ''stratigraphy''
      then bindE (create_stratigraphy opts) (\<lambda>ev. Inr (ev\<lparr>event_type := ''STRATIGRAPHY''\<rparr>))
      else if etype = ''fault''
      then bindE (create_fault zm T opts) (\<lambda>ev. Inr (ev\<lparr>event_type := ''FAULT''\<rparr>))
      else if etype = ''tilt''
      then bindE (create_tilt zm T opts) (\<lambda>ev. Inr (ev\<lparr>event_type := ''TILT''\<rparr>))
      else if etype = ''unconformity''
      then bindE (create_unconformity zm T opts) (\<lambda>ev. Inr (ev\<lparr>event_type := ''UNCONFORMITY''\<rparr>))
      else if etype = ''fold''
      then bindE (create_fold zm T opts) (\<lambda>ev. Inr (ev\<lparr>event_type := ''FOLD''\<rparr>))
      else Inl NameError)"

text \<open>
  The expression that ends \<^verbatim>\<open>add_event\<close>: the history lines with the new event's lines
  spliced in. The source computes it and stores it nowhere.
\<close>

definition spliced_lines :: "history \<Rightarrow> int \<Rightarrow> int \<Rightarrow> event \<Rightarrow> string list" where
  "spliced_lines h b e ev =
     py_slice (history_lines h) 0 b @ event_lines ev @
     py_slice (history_lines h) e (int (length (history_lines h)))"

text \<open>
  \<^verbatim>\<open>add_event\<close>: the default of \<^verbatim>\<open>kwds.get("event_num", self.get_ev_counter())\<close> is
  evaluated whether or not a number is given, so the counter always advances.
\<close>

definition add_event ::
  "templates \<Rightarrow> string \<Rightarrow> pydict \<Rightarrow> int option \<Rightarrow> history \<Rightarrow> history \<times> (error + unit)" where
  "add_event T etype opts event_num_kw h =
     (case event_counter h of
        None \<Rightarrow> (h, Inl AttributeError)
      | Some c \<Rightarrow>
          (case build_event (zmax h) T etype opts of
             Inl e \<Rightarrow> (h\<lparr>event_counter := Some (c + 1)\<rparr>, Inl e)
           | Inr ev0 \<Rightarrow>
               (let event_num = (case event_num_kw of None \<Rightarrow> c + 1 | Some n \<Rightarrow> n);
                    ev = set_event_number event_num ev0;
                    h1 = h\<lparr>event_counter := Some (c + 1),
                           events := events_set (events h) event_num (length (objects h)),
                           objects := objects h @ [ev]\<rparr>
                in case all_events_end h1 of
                     None \<Rightarrow> (h1, Inl AttributeError)
                   | Some e \<Rightarrow>
                       (case all_events_begin h1 of
                          None \<Rightarrow> (h1\<lparr>all_events_end := Some (e + int (length (event_lines ev)))\<rparr>,
                                   Inl AttributeError)
                        | Some b \<Rightarrow>
                            (let discarded = spliced_lines h1 b (e + int (length (event_lines ev))) ev
                             in (h1\<lparr>all_events_end := Some (e + int (length (event_lines ev)))\<rparr>,
                                 Inr ()))))))"

subsection \<open>Serialization: \<^verbatim>\<open>write_history\<close>\<close>

record tm =
  tm_mday :: int
  tm_mon :: int
  tm_year :: int
  tm_hour :: int
  tm_min :: int
  tm_sec :: int

definition time_string :: "tm \<Rightarrow> string" where
  "time_string t =
     fmt_d (tm_mday t) @ ''/'' @ fmt_d (tm_mon t) @ ''/'' @ fmt_d (tm_year t) @ '' '' @
     fmt_d (tm_hour t) @ '':'' @ fmt_d (tm_min t) @ '':'' @ fmt_d (tm_sec t)"

text \<open>\<^verbatim>\<open>_create_header\<close>: the header text for a file name and the local time.\<close>

definition header_text :: "string \<Rightarrow> tm \<Rightarrow> string" where
  "header_text fname t =
     ''#Filename = '' @ fname @ '' \<newline>#Date Saved = '' @ time_string t @
     ''\<newline>FileType = 111\<newline>Version = 7.11\<newline>\<newline>''"

text \<open>The lines of the event stored under a key.\<close>

definition lines_at :: "(int \<times> nat) list \<Rightarrow> event list \<Rightarrow> int \<Rightarrow> string list" where
  "lines_at evs objs k = (case map_of evs k of None \<Rightarrow> [] | Some r \<Rightarrow> event_lines (objs ! r))"

text \<open>
  The local list \<^verbatim>\<open>history_lines\<close> of \<^verbatim>\<open>write_history\<close>: header, event count, the events
  by sorted key, the footer.
\<close>

definition assemble_lines :: "string \<Rightarrow> history \<Rightarrow> string list" where
  "assemble_lines header h =
     map (\<lambda>l. l @ [NL]) (split_on NL header) @
     [''No of Events'' @ [TAB] @ ''= '' @ fmt_d (int (length (events h))) @ [NL]] @
     concat (map (lines_at (events h) (objects h)) (sort (map fst (events h)))) @
     footer_of h"

text \<open>
  The writing loop: a blank line goes out before a line that holds \<^verbatim>\<open>BlockOptions\<close>
  when the line before it in the list is not blank. For the first line, the line before
  is \<^verbatim>\<open>history_lines[-1]\<close>, the last.
\<close>

fun write_from :: "string \<Rightarrow> string list \<Rightarrow> string list" where
  "write_from prev [] = []"
| "write_from prev (line # ls) =
     (if str_in ''BlockOptions'' line \<and> prev \<noteq> [NL] then [[NL], line] else [line]) @
     write_from line ls"

definition write_lines :: "string list \<Rightarrow> string list" where
  "write_lines hl = (if hl = [] then [] else write_from (last hl) hl)"

text \<open>
  \<^verbatim>\<open>write_history(filename)\<close> at local time \<open>t\<close>: the object as the method leaves it and
  the strings written to the file, in order.
\<close>

definition write_history ::
  "(event \<Rightarrow> string list) \<Rightarrow> templates \<Rightarrow> tm \<Rightarrow> string \<Rightarrow> history \<Rightarrow> history \<times> string list" where
  "write_history encode T t fname h =
     (let h1 = update_all_event_properties encode h;
          h2 = (case filename h1 of None \<Rightarrow> h1\<lparr>filename := Some fname\<rparr> | Some f \<Rightarrow> h1);
          header = header_text (case filename h2 of None \<Rightarrow> fname | Some f \<Rightarrow> f) t;
          h3 = ensure_footer T (h2\<lparr>header_lines := Some header\<rparr>)
      in (h3, write_lines (assemble_lines header h3)))"

section \<open>Inputs of the examples\<close>

text \<open>
  The options of the fault of the running example: position \<^verbatim>\<open>(0, 0, 'top')\<close>, dip
  direction 45, dip 60, slip 500.
\<close>

definition fault_top_options :: pydict where
  "fault_top_options =
     [(PStr ''name'', PStr ''F''), (PStr ''pos'', PTuple [PInt 0, PInt 0, PStr ''top'']),
      (PStr ''dip_dir'', PInt 45), (PStr ''dip'', PInt 60), (PStr ''slip'', PInt 500)]"

text \<open>
  A history with one stratigraphy event, stored under order number 1, whose single layer
  has height 100; and the nested mapping that names layer 0 and its \<open>Height\<close>.
\<close>

definition one_layer_event :: event where
  "one_layer_event =
     \<lparr>event_class = Stratigraphy, event_type = ''STRATIGRAPHY'', event_lines = [],
      properties = [(PStr ''Num Layers'', PFloat 1)],
      layers = [\<lparr>layer_properties = [(PStr ''Height'', PFloat 100)]\<rparr>],
      num_layers = None,
      decoded_properties = [(PStr ''Num Layers'', PFloat 1)],
      decoded_layers = [\<lparr>layer_properties = [(PStr ''Height'', PFloat 100)]\<rparr>]\<rparr>"

definition one_layer_history :: history where
  "one_layer_history = NoddyHistory_new\<lparr>events := [(1, 0)], objects := [one_layer_event]\<rparr>"

definition layer_height_500 :: "(int \<times> pydict) list" where
  "layer_height_500 =
     [(1, [(PInt 0, PDict [(PStr ''property'', PStr ''Height''), (PStr ''val'', PFloat 500)])])]"

text \<open>
  The footer marker as the scan sees it: a line that holds \<^verbatim>\<open>BlockOptions\<close> and
  is neither the event count nor an event header, which the scan tests first.
\<close>

definition footer_marker :: "string \<Rightarrow> bool" where
  "footer_marker line =
     (str_in ''BlockOptions'' line \<and> \<not> str_in ''No of Events'' line \<and> \<not> str_in ''Event #'' line)"

text \<open>
  A document of two events in the fixed layout (without its header), and what the
  anchor scan finds in it.
\<close>

definition two_event_lines :: "string list" where
  "two_event_lines =
     [''No of Events'' @ [TAB] @ ''= 2'' @ [NL],
      ''Event #1'' @ [TAB] @ ''= STRATIGRAPHY'' @ [NL], [TAB] @ ''Name'' @ [TAB] @ ''= Strat'' @ [NL],
      ''Event #2'' @ [TAB] @ ''= FAULT'' @ [NL], [TAB] @ ''Name'' @ [TAB] @ ''= F'' @ [NL], [NL],
      ''#BlockOptions'' @ [NL]]"

definition two_event_scan :: scan_state where
  "two_event_scan =
     \<lparr>sc_n_events = Some 2,
      sc_raw = [\<lparr>rtype = '' STRATIGRAPHY'', rnum = 1, line_start = 1, line_end = Some 2\<rparr>,
                \<lparr>rtype = '' FAULT'', rnum = 2, line_start = 3, line_end = Some 4\<rparr>],
      sc_stop = Some 4\<rparr>"

text \<open>A document with a footer marker and no event count.\<close>

definition no_count_lines :: "string list" where
  "no_count_lines =
     [''Event #1'' @ [TAB] @ ''= FAULT'' @ [NL], [TAB] @ ''Name'' @ [TAB] @ ''= F'' @ [NL], [NL],
      ''#BlockOptions'' @ [NL]]"

text \<open>
  An event with the header line of its text blanked: what \<^verbatim>\<open>set_event_number\<close> leaves
  alone. \<open>swap_twice\<close> is the object after two calls of \<^verbatim>\<open>swap_events(a, b)\<close>.
\<close>

definition blank_header :: "event \<Rightarrow> event" where
  "blank_header ev = ev\<lparr>event_lines := (event_lines ev)[0 := []]\<rparr>"

definition swap_twice :: "int \<Rightarrow> int \<Rightarrow> history \<Rightarrow> history" where
  "swap_twice a b h = fst (swap_events a b (fst (swap_events a b h)))"

text \<open>The two events of \<open>two_event_lines\<close>, loaded under the order numbers 1 and 2.\<close>

definition two_event_history :: history where
  "two_event_history =
     NoddyHistory_new\<lparr>events := [(1, 0), (2, 1)],
       objects := [decode_event Stratigraphy (take 2 (drop 1 two_event_lines)),
                   decode_event Fault (take 2 (drop 3 two_event_lines))]\<rparr>"



text \<open>
  Short texts for the template parameters, a local time, and the two events as loaded
  from \<open>two_event_lines\<close>, with the footer found there.
\<close>

definition example_templates :: templates where
  "example_templates =
     \<lparr>t_fault = ''    X    = $POS_X$\<newline>    Name    = $NAME$'',
      t_fold = ''    X    = $POS_X$\<newline>    Name    = $NAME$'',
      t_tilt = ''X    =   $POS_X$\<newline>    Name    = $NAME$'',
      t_unconformity = ''X    =   $POS_X$\<newline>    Z    = $POS_Z$'',
      t_footer = ''\<newline>#BlockOptions\<newline>    Number of Views    = 1''\<rparr>"



text \<open>
  The value that \<^verbatim>\<open>'%7.2f'\<close> prints for a number: the number rounded to two decimals.
  A footer has a cube-size label before the equals sign of a line when the text that
  \<^verbatim>\<open>line.split('=')[0]\<close> keeps of some line holds the label. The footer of
  \<open>cube_footer_history\<close> has both labels so.
\<close>

definition two_decimals :: "real \<Rightarrow> real" where
  "two_decimals v =
     (if v < 0 then - 1 else 1) * real (nat (round_half_even (\<bar>v\<bar> * 10 ^ 2))) / 10 ^ 2"

definition cube_anchor_before_equals :: "string \<Rightarrow> string list \<Rightarrow> bool" where
  "cube_anchor_before_equals cs fl = list_ex (\<lambda>l. str_in cs (hd (split_on (CHR ''='') l))) fl"

definition cube_footer_history :: history where
  "cube_footer_history =
     NoddyHistory_new\<lparr>footer_lines :=
       Some [''#BlockOptions'' @ [NL],
             [TAB] @ ''Geology Cube Size'' @ [TAB] @ ''=  50.00'' @ [NL],
             [TAB] @ ''Geophysics Cube Size'' @ [TAB] @ ''= 50.00'' @ [NL]]\<rparr>"

section \<open>Properties\<close>

subsection \<open>Evaluation rules\<close>

lemma replicate_numeral_eval: "replicate (numeral v) x = x # replicate (numeral v - 1) x"
  by (simp add: numeral_eq_Suc)

text \<open>The digits of a numeral: the recursion of \<open>digits\<close> unfolds on numerals only.\<close>

lemma digits_eval:
  "digits 0 = [digit_char 0]"
  "digits (Suc n) =
     (if Suc n < 10 then [digit_char (Suc n)]
      else digits (Suc n div 10) @ [digit_char (Suc n mod 10)])"
  "digits (numeral k) =
     (if numeral k < (10::nat) then [digit_char (numeral k)]
      else digits (numeral k div 10) @ [digit_char (numeral k mod 10)])"
  by (simp_all add: digits.simps [of 0] digits.simps [of "Suc n"] digits.simps [of "numeral k"])

lemmas number_text_defs = fmt_f_def fixed_digits_def fmt_e_def sci_carry_def sci_digits_def
  sci_scaled_def dec_exp_def round_half_even_def digits_eval digit_char_def pad_left_def
  fmt_d_def replicate_numeral_eval

lemmas option_defs = opt_item_def opt_get_def dict_item_def key_eq_def subscript_def py_index_def
  number_of_def fmt_1f_def str_arg_def fmt_s_def req_1f_def def_1f_def pos_1f_def pos_z_def
  bindE_def

subsection \<open>The fault builder and the position \<^verbatim>\<open>'top'\<close>\<close>

text \<open>
  C7. Building a fault with \<^verbatim>\<open>pos=(0, 0, 'top')\<close>, \<^verbatim>\<open>dip_dir=45\<close>, \<^verbatim>\<open>dip=60\<close>, \<^verbatim>\<open>slip=500\<close>
  is claimed to give an event whose \<open>Z\<close> is the upper z-extent of the document. The
  builder compares the whole position with \<^verbatim>\<open>'top'\<close>, finds them different, and formats
  the third coordinate, the string \<^verbatim>\<open>'top'\<close>, as a number: whatever the template and
  whatever \<^verbatim>\<open>zmax\<close> holds, it raises \<^verbatim>\<open>TypeError\<close> and builds no event.
\<close>

theorem create_fault_top_raises:
  "create_fault zm T fault_top_options = Inl TypeError"
  by (simp add: create_fault_def fault_top_options_def option_defs)

subsection \<open>Integer sub-keys in \<^verbatim>\<open>set_event_params\<close>\<close>

lemmas param_defs = set_event_params_def set_param_def change_event_params_def change_param_def
  change_layer_param_def str_item_def dict_add_def py_add_def dict_item_def key_eq_def
  py_index_def bindE_def

text \<open>
  C9. An integer sub-key is claimed to address the layer at that index in both
  \<^verbatim>\<open>set_event_params\<close> and \<^verbatim>\<open>change_event_params\<close>. Only the second tests for an
  integer: on the one-layer history, \<^verbatim>\<open>set_event_params({1: {0: {'property': 'Height',
  'val': 500}}})\<close> stores the inner mapping as a property named \<open>0\<close> of the event and
  leaves the layer at height 100, while \<^verbatim>\<open>change_event_params\<close> with the same mapping
  adds 500 to the height of layer 0.
\<close>

theorem set_event_params_layer_key:
  "set_event_params layer_height_500 one_layer_history =
     (one_layer_history\<lparr>objects :=
        [one_layer_event\<lparr>properties :=
           [(PStr ''Num Layers'', PFloat 1),
            (PInt 0, PDict [(PStr ''property'', PStr ''Height''), (PStr ''val'', PFloat 500)])]\<rparr>]\<rparr>,
      Inr ())
   \<and> change_event_params layer_height_500 one_layer_history =
     (one_layer_history\<lparr>objects :=
        [one_layer_event\<lparr>layers := [\<lparr>layer_properties = [(PStr ''Height'', PFloat 600)]\<rparr>]\<rparr>]\<rparr>,
      Inr ())"
  by (simp add: param_defs layer_height_500_def one_layer_history_def one_layer_event_def
        NoddyHistory_new_def create_new_history_def blank_history_def)

subsection \<open>The anchor scan\<close>

lemmas read_defs = py_int_def py_float_def split_sign_def strip_def rstrip_def is_ws_def
  is_exp_mark_def valid_digit_run_def is_digit_def run_value_def digits_value_def digit_val_def
  to_lower_def py_index_def py_slice_def clip_index_def

lemmas scan_defs = anchor_scan_def scan_step_def set_last_end_def bindE_def

lemma bindE_Inr: "bindE m f = Inr y \<Longrightarrow> \<exists>x. m = Inr x \<and> f x = Inr y"
  by (cases m) (simp_all add: bindE_def)

lemma scan_step_stop:
  assumes "scan_step i line st = Inr st'"
  shows "sc_stop st' = (if footer_marker line then Some (i - 2) else sc_stop st)"
  using assms
  by (auto simp: scan_step_def footer_marker_def dest!: bindE_Inr split: if_splits)

lemma scan_lines_stop:
  assumes "scan_lines i ls st = Inr st'"
  shows "(list_all (\<lambda>l. \<not> footer_marker l) ls \<and> sc_stop st' = sc_stop st) \<or>
         (\<exists>j < length ls. footer_marker (ls ! j) \<and>
            (\<forall>j'. j < j' \<and> j' < length ls \<longrightarrow> \<not> footer_marker (ls ! j')) \<and>
            sc_stop st' = Some (i + int j - 2))"
  using assms
proof (induction ls arbitrary: i st)
  case Nil
  then show ?case by simp
next
  case (Cons line ls)
  from Cons.prems obtain st1 where s1: "scan_step i line st = Inr st1"
    and s2: "scan_lines (i + 1) ls st1 = Inr st'"
    by (auto dest!: bindE_Inr)
  from Cons.IH [OF s2] show ?case
  proof
    assume a: "list_all (\<lambda>l. \<not> footer_marker l) ls \<and> sc_stop st' = sc_stop st1"
    show ?thesis
    proof (cases "footer_marker line")
      case True
      have "\<forall>j'. 0 < j' \<and> j' < length (line # ls) \<longrightarrow> \<not> footer_marker ((line # ls) ! j')"
        using a by (auto simp: list_all_length nth_Cons split: nat.splits)
      with True a scan_step_stop [OF s1] have
        "0 < length (line # ls) \<and> footer_marker ((line # ls) ! 0) \<and>
         (\<forall>j'. 0 < j' \<and> j' < length (line # ls) \<longrightarrow> \<not> footer_marker ((line # ls) ! j')) \<and>
         sc_stop st' = Some (i + int 0 - 2)"
        by simp
      then show ?thesis by blast
    next
      case False
      with a scan_step_stop [OF s1] show ?thesis by simp
    qed
  next
    assume "\<exists>j<length ls. footer_marker (ls ! j) \<and>
       (\<forall>j'. j < j' \<and> j' < length ls \<longrightarrow> \<not> footer_marker (ls ! j')) \<and>
       sc_stop st' = Some (i + 1 + int j - 2)"
    then obtain j where j: "j < length ls" "footer_marker (ls ! j)"
      "\<forall>j'. j < j' \<and> j' < length ls \<longrightarrow> \<not> footer_marker (ls ! j')"
      "sc_stop st' = Some (i + 1 + int j - 2)"
      by blast
    have "\<forall>j'. Suc j < j' \<and> j' < length (line # ls) \<longrightarrow> \<not> footer_marker ((line # ls) ! j')"
      using j(3) by (auto simp: nth_Cons split: nat.splits)
    with j have "Suc j < length (line # ls) \<and> footer_marker ((line # ls) ! Suc j) \<and>
       (\<forall>j'. Suc j < j' \<and> j' < length (line # ls) \<longrightarrow> \<not> footer_marker ((line # ls) ! j')) \<and>
       sc_stop st' = Some (i + int (Suc j) - 2)"
      by simp
    then show ?thesis by blast
  qed
qed

lemma length_set_line_ends [simp]: "length (set_line_ends es) = length es"
  by (induction es rule: set_line_ends.induct) simp_all

lemma set_line_ends_nth:
  "Suc i < length es \<Longrightarrow>
     line_end (set_line_ends es ! i) = Some (line_start (es ! Suc i) - 1)"
proof (induction es arbitrary: i rule: set_line_ends.induct)
  case (1 e e' es)
  then show ?case by (cases i) simp_all
qed simp_all

lemma set_line_ends_start: "i < length es \<Longrightarrow> line_start (set_line_ends es ! i) = line_start (es ! i)"
proof (induction es arbitrary: i rule: set_line_ends.induct)
  case (1 e e' es)
  then show ?case by (cases i) simp_all
qed simp_all

lemma set_last_end_Inr:
  assumes "set_last_end stop es = Inr es'"
  shows "\<exists>s. stop = Some s \<and> es \<noteq> [] \<and> es' = butlast es @ [(last es)\<lparr>line_end := Some s\<rparr>]"
  using assms by (auto simp: set_last_end_def split: option.splits if_splits)

lemma butlast_snoc_nth:
  assumes "Suc i < length es"
  shows "(butlast es @ [x]) ! i = es ! i"
proof -
  have "i < length (butlast es)" using assms by simp
  then show ?thesis by (simp add: nth_append nth_butlast)
qed

lemma butlast_snoc_start:
  assumes "es \<noteq> []" "i < length es"
  shows "line_start ((butlast es @ [(last es)\<lparr>line_end := s\<rparr>]) ! i) = line_start (es ! i)"
proof (cases "Suc i < length es")
  case True
  then show ?thesis by (simp add: butlast_snoc_nth)
next
  case False
  with assms have "i = length es - 1" by simp
  with assms show ?thesis by (simp add: nth_append last_conv_nth)
qed

text \<open>
  C5. Whenever the anchor scan succeeds, every event but the last ends on the line just
  before the next event starts, and the last event ends two lines before the footer
  marker, the last line that holds \<^verbatim>\<open>BlockOptions\<close>.
\<close>

theorem anchor_scan_line_ends:
  assumes "anchor_scan hl = Inr st"
  shows "(\<forall>i. Suc i < length (sc_raw st) \<longrightarrow>
            line_end (sc_raw st ! i) = Some (line_start (sc_raw st ! Suc i) - 1)) \<and>
         (\<exists>j < length hl. footer_marker (hl ! j) \<and>
            (\<forall>j'. j < j' \<and> j' < length hl \<longrightarrow> \<not> footer_marker (hl ! j')) \<and>
            line_end (last (sc_raw st)) = Some (int j - 2))"
proof -
  from assms obtain st0 es where
    sc: "scan_lines 0 hl \<lparr>sc_n_events = None, sc_raw = [], sc_stop = None\<rparr> = Inr st0"
    and le: "set_last_end (sc_stop st0) (set_line_ends (sc_raw st0)) = Inr es"
    and st: "st = st0\<lparr>sc_raw := es\<rparr>"
    by (auto simp: anchor_scan_def dest!: bindE_Inr)
  from set_last_end_Inr [OF le] obtain s where s: "sc_stop st0 = Some s"
    and ne: "set_line_ends (sc_raw st0) \<noteq> []"
    and es: "es = butlast (set_line_ends (sc_raw st0)) @
               [(last (set_line_ends (sc_raw st0)))\<lparr>line_end := Some s\<rparr>]"
    by blast
  have "sc_raw st0 \<noteq> []"
    using ne by auto
  then have len: "length es = length (sc_raw st0)"
    unfolding es by (cases "sc_raw st0") simp_all
  have first: "\<forall>i. Suc i < length (sc_raw st) \<longrightarrow>
            line_end (sc_raw st ! i) = Some (line_start (sc_raw st ! Suc i) - 1)"
  proof (intro allI impI)
    fix i assume i: "Suc i < length (sc_raw st)"
    then have i': "Suc i < length (sc_raw st0)" using st len by simp
    have "es ! i = set_line_ends (sc_raw st0) ! i"
      unfolding es using i' by (simp add: butlast_snoc_nth)
    moreover have "line_start (es ! Suc i) = line_start (set_line_ends (sc_raw st0) ! Suc i)"
      unfolding es using ne i' by (simp add: butlast_snoc_start)
    ultimately show "line_end (sc_raw st ! i) = Some (line_start (sc_raw st ! Suc i) - 1)"
      using st i' by (simp add: set_line_ends_nth set_line_ends_start)
  qed
  have lst: "line_end (last (sc_raw st)) = Some s"
    using st es by simp
  from scan_lines_stop [OF sc] s have
    "\<exists>j < length hl. footer_marker (hl ! j) \<and>
            (\<forall>j'. j < j' \<and> j' < length hl \<longrightarrow> \<not> footer_marker (hl ! j')) \<and>
            s = int j - 2"
    by auto
  with first lst show ?thesis by simp
qed

lemma two_event_lines_scan: "anchor_scan two_event_lines = Inr two_event_scan"
  by (simp add: two_event_lines_def two_event_scan_def scan_defs read_defs)

theorem anchor_scan_line_ends_witness:
  "anchor_scan two_event_lines = Inr two_event_scan \<and>
   line_end (sc_raw two_event_scan ! 0) = Some (line_start (sc_raw two_event_scan ! Suc 0) - 1) \<and>
   footer_marker (two_event_lines ! 6) \<and>
   line_end (last (sc_raw two_event_scan)) = Some (6 - 2)"
proof -
  note r = anchor_scan_line_ends [OF two_event_lines_scan]
  from r have "line_end (sc_raw two_event_scan ! 0) =
      Some (line_start (sc_raw two_event_scan ! Suc 0) - 1)"
    by (simp add: two_event_scan_def)
  moreover have "footer_marker (two_event_lines ! 6)"
    by (simp add: two_event_lines_def footer_marker_def)
  moreover have "line_end (last (sc_raw two_event_scan)) = Some (6 - 2)"
    by (simp add: two_event_scan_def)
  ultimately show ?thesis
    using two_event_lines_scan by simp
qed

subsection \<open>Loading a document without its anchors\<close>

lemmas load_defs = NoddyHistory_load_def load_history_def get_footer_lines_def
  determine_events_def create_event_def class_of_type_def blank_history_def

lemma event_lines_decode_event [simp]: "event_lines (decode_event c ls) = ls"
  by (simp add: decode_event_def)

text \<open>
  C6, as the code has it. A document in which no line holds \<^verbatim>\<open>BlockOptions\<close> cannot
  be loaded: the constructor raises and the caller gets no object. (The exception is
  Python's own, for the variable the scan never bound or for a line it could not read;
  the source has no exception type of its own.)
\<close>

theorem load_without_footer_marker_fails:
  assumes "list_all (\<lambda>l. \<not> str_in ''BlockOptions'' l) ls"
  shows "\<exists>e. NoddyHistory_load ls = Inl e"
proof (cases "ls = []")
  case True
  then show ?thesis
    by (simp add: NoddyHistory_load_def load_history_def get_footer_lines_def)
next
  case False
  have nm: "list_all (\<lambda>l. \<not> footer_marker l) ls"
    using assms by (simp add: list_all_iff footer_marker_def)
  have "\<exists>e. anchor_scan ls = Inl e"
  proof (cases "scan_lines 0 ls \<lparr>sc_n_events = None, sc_raw = [], sc_stop = None\<rparr>")
    case (Inl e)
    then show ?thesis by (simp add: anchor_scan_def bindE_def)
  next
    case (Inr st0)
    from scan_lines_stop [OF Inr] nm have "sc_stop st0 = None"
      by (auto simp: list_all_length)
    with Inr show ?thesis
      by (simp add: anchor_scan_def bindE_def set_last_end_def)
  qed
  then obtain e where "anchor_scan ls = Inl e" ..
  with False show ?thesis
    by (simp add: NoddyHistory_load_def load_history_def get_footer_lines_def Let_def
          determine_events_def bindE_def)
qed


theorem load_without_footer_marker_fails_witness:
  "list_all (\<lambda>l. \<not> str_in ''BlockOptions'' l) (take 5 two_event_lines) \<and>
   NoddyHistory_load (take 5 two_event_lines) = Inl UnboundLocalError"
proof -
  have h: "list_all (\<lambda>l. \<not> str_in ''BlockOptions'' l) (take 5 two_event_lines)"
    by (simp add: two_event_lines_def)
  from load_without_footer_marker_fails [OF h] obtain e
    where e: "NoddyHistory_load (take 5 two_event_lines) = Inl e" ..
  moreover have "NoddyHistory_load (take 5 two_event_lines) \<noteq> Inl e \<or> e = UnboundLocalError"
    by (simp add: two_event_lines_def load_defs scan_defs read_defs)
  ultimately show ?thesis using h by simp
qed

text \<open>
  C6, as claimed, also lets loading fail when the event count is missing. It does not:
  the document \<open>no_count_lines\<close> has no line with \<^verbatim>\<open>No of Events\<close>, and loads, with
  its one event and its footer; the attribute \<^verbatim>\<open>n_events\<close> is left unset.
\<close>

theorem load_without_event_count_succeeds:
  "list_all (\<lambda>l. \<not> str_in ''No of Events'' l) no_count_lines \<and>
   (case NoddyHistory_load no_count_lines of
      Inl e \<Rightarrow> False
    | Inr h \<Rightarrow> events h = [(1, 0)] \<and> n_events h = None \<and>
        map event_lines (objects h) = [take 2 no_count_lines] \<and>
        footer_lines h = Some (drop 3 no_count_lines))"
  by (simp add: no_count_lines_def load_defs scan_defs read_defs)

subsection \<open>What \<^verbatim>\<open>add_event\<close> changes\<close>

lemma add_event_fields:
  "fst (add_event T etype opts kw h) =
     h\<lparr>event_counter := event_counter (fst (add_event T etype opts kw h)),
       events := events (fst (add_event T etype opts kw h)),
       objects := objects (fst (add_event T etype opts kw h)),
       all_events_end := all_events_end (fst (add_event T etype opts kw h))\<rparr>"
  by (simp add: add_event_def Let_def split: option.splits sum.splits)

lemma write_history_reads:
  "snd (write_history enc T t fn
          (h\<lparr>history_lines := hl, n_events := n, raw_events := r, all_events_begin := b,
             all_events_end := e, event_counter := c, header_lines := hdr, cube_size := cs,
             zmax := z\<rparr>))
   = snd (write_history enc T t fn h)"
  by (simp add: write_history_def update_all_event_properties_def ensure_footer_def
        create_footer_from_template_def assemble_lines_def
        footer_of_def Let_def split: option.splits)

text \<open>
  C10. Whatever \<^verbatim>\<open>add_event\<close> is given and whether or not it raises, it changes at
  most the event counter, the events (the dictionary and the store of event objects)
  and \<^verbatim>\<open>all_events_end\<close>; the history lines stay as they were. And what
  \<^verbatim>\<open>write_history\<close> writes is the same after any change of the history lines and of
  every other attribute but the events, the file name and the footer lines.
\<close>

theorem add_event_frame:
  "(\<exists>c ev os e. fst (add_event T etype opts kw h) =
       h\<lparr>event_counter := c, events := ev, objects := os, all_events_end := e\<rparr>) \<and>
   history_lines (fst (add_event T etype opts kw h)) = history_lines h \<and>
   snd (write_history enc T' t fn
          (h'\<lparr>history_lines := hl, n_events := n, raw_events := r, all_events_begin := b,
              all_events_end := e', event_counter := c', header_lines := hdr, cube_size := cs,
              zmax := z\<rparr>))
     = snd (write_history enc T' t fn h')"
proof (intro conjI)
  show "\<exists>c ev os e. fst (add_event T etype opts kw h) =
       h\<lparr>event_counter := c, events := ev, objects := os, all_events_end := e\<rparr>"
    using add_event_fields [of T etype opts kw h] by blast
  show "history_lines (fst (add_event T etype opts kw h)) = history_lines h"
    by (subst add_event_fields) simp
  show "snd (write_history enc T' t fn
          (h'\<lparr>history_lines := hl, n_events := n, raw_events := r, all_events_begin := b,
              all_events_end := e', event_counter := c', header_lines := hdr, cube_size := cs,
              zmax := z\<rparr>))
     = snd (write_history enc T' t fn h')"
    by (rule write_history_reads)
qed

subsection \<open>Swapping two events twice\<close>

lemma events_set_same:
  "map_of E k = Some r \<Longrightarrow> events_set E k r = E"
  by (induction E) (auto split: if_splits)

lemma map_of_events_set:
  "map_of (events_set E k r) k' = (if k' = k then Some r else map_of E k')"
  by (induction E) auto

lemma events_set_twice:
  "events_set (events_set E k r) k r' = events_set E k r'"
  by (induction E) auto

lemma events_set_commute:
  "map_of E k \<noteq> None \<Longrightarrow> map_of E k' \<noteq> None \<Longrightarrow> k \<noteq> k' \<Longrightarrow>
     events_set (events_set E k r) k' r' = events_set (events_set E k' r') k r"
  by (induction E) (auto split: if_splits)

lemma swap_back:
  assumes "map_of E a = Some ra" "map_of E b = Some rb"
  shows "events_set (events_set (events_set (events_set E a rb) b ra) a ra) b rb = E"
proof (cases "a = b")
  case True
  with assms show ?thesis by (simp add: events_set_twice events_set_same)
next
  case False
  have "events_set (events_set (events_set (events_set E a rb) b ra) a ra) b rb
      = events_set (events_set (events_set (events_set E a rb) a ra) b ra) b rb"
    using False assms
    by (simp add: events_set_commute [of "events_set E a rb" b a] map_of_events_set)
  also have "\<dots> = events_set (events_set E a ra) b rb"
    by (simp add: events_set_twice)
  also have "\<dots> = E"
    using assms by (simp add: events_set_same)
  finally show ?thesis .
qed

lemma blank_header_set_event_number [simp]:
  "blank_header (set_event_number k ev) = blank_header ev"
  by (simp add: blank_header_def set_event_number_def)

lemma blank_header_keeps [simp]:
  "properties (blank_header ev) = properties ev" "layers (blank_header ev) = layers ev"
  by (simp_all add: blank_header_def)

lemma renumber_blank_header:
  "map blank_header (foldl (\<lambda>objs (k, r). objs[r := set_event_number k (objs ! r)]) objs E)
     = map blank_header objs"
proof (induction E arbitrary: objs)
  case Nil
  then show ?case by simp
next
  case (Cons kr E)
  obtain k r where kr: "kr = (k, r)" by (cases kr)
  have "map blank_header (objs[r := set_event_number k (objs ! r)]) = map blank_header objs"
    by (metis list_update_id map_update blank_header_set_event_number)
  with Cons.IH [of "objs[r := set_event_number k (objs ! r)]"] kr show ?case by simp
qed

lemma renumber_other:
  "r \<notin> snd ` set E \<Longrightarrow>
     foldl (\<lambda>objs (k, r). objs[r := set_event_number k (objs ! r)]) objs E ! r = objs ! r"
  by (induction E arbitrary: objs) auto

lemma renumber_nth:
  assumes "distinct (map snd E)" "(k, r) \<in> set E" "r < length objs"
  shows "foldl (\<lambda>objs (k, r). objs[r := set_event_number k (objs ! r)]) objs E ! r
           = set_event_number k (objs ! r)"
  using assms
proof (induction E arbitrary: objs)
  case Nil
  then show ?case by simp
next
  case (Cons kr E)
  obtain k' r' where kr: "kr = (k', r')" by (cases kr)
  show ?case
  proof (cases "(k, r) = (k', r')")
    case True
    with Cons.prems kr have "r \<notin> snd ` set E" by auto
    with True kr Cons.prems(3) show ?thesis by (simp add: renumber_other)
  next
    case False
    with Cons.prems kr have in_E: "(k, r) \<in> set E" and ne: "r \<noteq> r'"
      by (auto simp: image_iff)
    from Cons.prems kr have d: "distinct (map snd E)" by simp
    from Cons.IH [OF d in_E, of "objs[r' := set_event_number k' (objs ! r')]"] Cons.prems(3) ne kr
    show ?thesis by simp
  qed
qed

lemma blank_header_fields:
  assumes "blank_header ev' = blank_header ev"
  shows "properties ev' = properties ev" "layers ev' = layers ev" "event_type ev' = event_type ev"
    "set_event_number k ev' = set_event_number k ev"
proof -
  from assms have e: "ev'\<lparr>event_lines := (event_lines ev')[0 := []]\<rparr>
      = ev\<lparr>event_lines := (event_lines ev)[0 := []]\<rparr>"
    by (simp add: blank_header_def)
  from e have "properties (ev'\<lparr>event_lines := (event_lines ev')[0 := []]\<rparr>)
      = properties (ev\<lparr>event_lines := (event_lines ev)[0 := []]\<rparr>)" by simp
  then show "properties ev' = properties ev" by simp
  from e have "layers (ev'\<lparr>event_lines := (event_lines ev')[0 := []]\<rparr>)
      = layers (ev\<lparr>event_lines := (event_lines ev)[0 := []]\<rparr>)" by simp
  then show "layers ev' = layers ev" by simp
  from e have "event_type (ev'\<lparr>event_lines := (event_lines ev')[0 := []]\<rparr>)
      = event_type (ev\<lparr>event_lines := (event_lines ev)[0 := []]\<rparr>)" by simp
  then show t: "event_type ev' = event_type ev" by simp
  have "set_event_number k ev' = set_event_number k (blank_header ev')"
    by (simp add: set_event_number_def blank_header_def)
  also have "\<dots> = set_event_number k (blank_header ev)" using assms by simp
  also have "\<dots> = set_event_number k ev"
    by (simp add: set_event_number_def blank_header_def)
  finally show "set_event_number k ev' = set_event_number k ev" .
qed


lemma swap_events_ok:
  assumes "map_of (events h) a = Some ra" and "map_of (events h) b = Some rb"
  shows "swap_events a b h =
     (update_event_numbers (h\<lparr>events := events_set (events_set (events h) a rb) b ra\<rparr>), Inr ())"
  using assms by (simp add: swap_events_def)

lemma events_update_event_numbers [simp]: "events (update_event_numbers h) = events h"
  by (simp add: update_event_numbers_def)

lemma objects_update_event_numbers:
  "objects (update_event_numbers h) =
     foldl (\<lambda>objs (k, r). objs[r := set_event_number k (objs ! r)]) (objects h) (events h)"
  by (simp add: update_event_numbers_def)

lemma length_renumber [simp]:
  "length (foldl (\<lambda>objs (k, r). objs[r := set_event_number k (objs ! r)]) objs E) = length objs"
  by (induction E arbitrary: objs) auto

text \<open>
  C4. When \<open>a\<close> and \<open>b\<close> are keys of the events, \<^verbatim>\<open>swap_events(a, b)\<close> twice in
  succession raises nothing and restores the dictionary; every event object keeps its
  properties and layers; and, when no two keys share an object, the event under \<open>a\<close>
  is the one that was there, its header line numbered \<open>a\<close> by
  \<^verbatim>\<open>update_event_numbers\<close>, and likewise under \<open>b\<close>.
\<close>

theorem swap_events_twice:
  assumes a: "map_of (events h) a = Some ra" and b: "map_of (events h) b = Some rb"
  shows "snd (swap_events a b h) = Inr () \<and>
         snd (swap_events a b (fst (swap_events a b h))) = Inr () \<and>
         events (swap_twice a b h) = events h \<and>
         map properties (objects (swap_twice a b h)) = map properties (objects h) \<and>
         map layers (objects (swap_twice a b h)) = map layers (objects h) \<and>
         (distinct (map snd (events h)) \<and> ra < length (objects h) \<and> rb < length (objects h) \<longrightarrow>
            event_at (swap_twice a b h) a = Some (set_event_number a (objects h ! ra)) \<and>
            event_at (swap_twice a b h) b = Some (set_event_number b (objects h ! rb)))"
proof -
  let ?step = "\<lambda>objs (k, r). objs[r := set_event_number k (objs ! r)]"
  define E1 where "E1 = events_set (events_set (events h) a rb) b ra"
  define h1 where "h1 = update_event_numbers (h\<lparr>events := E1\<rparr>)"
  define h2 where "h2 = update_event_numbers (h1\<lparr>events := events h\<rparr>)"
  have s1: "swap_events a b h = (h1, Inr ())"
    unfolding h1_def E1_def using a b by (rule swap_events_ok)
  have e1: "events h1 = E1"
    by (simp add: h1_def)
  have o1: "objects h1 = foldl ?step (objects h) E1"
    by (simp add: h1_def objects_update_event_numbers)
  have a1: "map_of (events h1) a = Some (if a = b then ra else rb)"
    by (simp add: e1 E1_def map_of_events_set)
  have b1: "map_of (events h1) b = Some ra"
    by (simp add: e1 E1_def map_of_events_set)
  have ab: "a = b \<Longrightarrow> ra = rb"
    using a b by simp
  have "events_set (events_set (events h1) a ra) b (if a = b then ra else rb)
      = events_set (events_set E1 a ra) b rb"
    using ab by (simp add: e1)
  also have "\<dots> = events h"
    unfolding E1_def using a b by (rule swap_back)
  finally have restored: "events_set (events_set (events h1) a ra) b (if a = b then ra else rb) = events h" .
  have s2: "swap_events a b h1 = (h2, Inr ())"
    unfolding h2_def using swap_events_ok [OF a1 b1] by (simp only: restored)
  have tw: "swap_twice a b h = h2"
    by (simp add: swap_twice_def s1 s2)
  have ev: "events h2 = events h"
    by (simp add: h2_def)
  have objs: "objects h2 = foldl ?step (objects h1) (events h)"
    by (simp add: h2_def objects_update_event_numbers)
  have bl1: "map blank_header (objects h1) = map blank_header (objects h)"
    unfolding o1 by (rule renumber_blank_header)
  have bl: "map blank_header (objects h2) = map blank_header (objects h)"
    unfolding objs using bl1 by (simp only: renumber_blank_header)
  have len1: "length (objects h1) = length (objects h)"
    unfolding o1 by simp
  have "map properties (map blank_header (objects h2)) = map properties (map blank_header (objects h))"
    by (simp only: bl)
  then have props: "map properties (objects h2) = map properties (objects h)"
    by (simp add: comp_def)
  have "map layers (map blank_header (objects h2)) = map layers (map blank_header (objects h))"
    by (simp only: bl)
  then have lays: "map layers (objects h2) = map layers (objects h)"
    by (simp add: comp_def)
  have num: "objects h2 ! r = set_event_number k (objects h ! r)"
    if d: "distinct (map snd (events h))" and k: "map_of (events h) k = Some r"
      and r: "r < length (objects h)" for k r
  proof -
    from k have kr: "(k, r) \<in> set (events h)" by (rule map_of_SomeD)
    from r len1 have r1: "r < length (objects h1)" by simp
    have "objects h2 ! r = set_event_number k (objects h1 ! r)"
      unfolding objs using d kr r1 by (rule renumber_nth)
    moreover have "map blank_header (objects h1) ! r = map blank_header (objects h) ! r"
      by (simp only: bl1)
    then have "blank_header (objects h1 ! r) = blank_header (objects h ! r)"
      using r r1 by simp
    then have "set_event_number k (objects h1 ! r) = set_event_number k (objects h ! r)"
      by (rule blank_header_fields(4))
    ultimately show ?thesis by simp
  qed
  have at: "event_at h2 k = Some (objects h2 ! r)" if "map_of (events h) k = Some r" for k r
    using that ev by (simp add: event_at_def)
  have c1: "snd (swap_events a b h) = Inr ()"
    by (simp only: s1 snd_conv)
  have c2: "snd (swap_events a b (fst (swap_events a b h))) = Inr ()"
    by (simp only: s1 s2 fst_conv snd_conv)
  have c6: "event_at h2 a = Some (set_event_number a (objects h ! ra)) \<and>
            event_at h2 b = Some (set_event_number b (objects h ! rb))"
    if "distinct (map snd (events h)) \<and> ra < length (objects h) \<and> rb < length (objects h)"
    using that num [OF _ a] num [OF _ b] by (simp only: at [OF a] at [OF b])
  from c1 c2 ev props lays c6 show ?thesis
    unfolding tw by blast
qed

lemma two_event_history_in_sync:
  "set_event_number 1 (objects two_event_history ! 0) = objects two_event_history ! 0 \<and>
   set_event_number 2 (objects two_event_history ! 1) = objects two_event_history ! 1"
  by (simp add: two_event_history_def two_event_lines_def set_event_number_def event_header_def
        decode_event_def class_tag_def fmt_d_def digits_eval digit_char_def)

theorem swap_events_twice_witness:
  "map_of (events two_event_history) 1 = Some 0 \<and>
   map_of (events two_event_history) 2 = Some 1 \<and>
   distinct (map snd (events two_event_history)) \<and>
   events (swap_twice 1 2 two_event_history) = events two_event_history \<and>
   map properties (objects (swap_twice 1 2 two_event_history))
     = map properties (objects two_event_history) \<and>
   event_at (swap_twice 1 2 two_event_history) 1 = event_at two_event_history 1 \<and>
   event_at (swap_twice 1 2 two_event_history) 2 = event_at two_event_history 2"
proof -
  have a: "map_of (events two_event_history) 1 = Some 0"
    and b: "map_of (events two_event_history) 2 = Some 1"
    and d: "distinct (map snd (events two_event_history))"
    and l: "0 < length (objects two_event_history)" "1 < length (objects two_event_history)"
    by (simp_all add: two_event_history_def)
  have at: "event_at two_event_history 1 = Some (objects two_event_history ! 0)"
    "event_at two_event_history 2 = Some (objects two_event_history ! 1)"
    using a b by (simp_all add: event_at_def)
  from swap_events_twice [OF a b] d l a b show ?thesis
    by (simp only: at two_event_history_in_sync simp_thms)
qed

subsection \<open>What \<^verbatim>\<open>write_history\<close> writes\<close>

lemma write_from_Nil_iff [simp]: "write_from prev ls = [] \<longleftrightarrow> ls = []"
  by (cases ls) auto





lemma write_history_events [simp]: "events (fst (write_history enc T t fn h)) = events h"
  by (simp add: write_history_def update_all_event_properties_def ensure_footer_def
        create_footer_from_template_def Let_def split: option.splits)






subsection \<open>Strings: membership, splitting, stripping\<close>

lemma str_in_sublist: "str_in p s \<longleftrightarrow> sublist p s"
  by (induction s) (auto simp: sublist_Cons_right)

lemma str_in_append_left: "str_in p xs \<Longrightarrow> str_in p (xs @ ys)"
  unfolding str_in_sublist by (metis append.assoc sublist_def)

lemma no_str_in: "p \<noteq> [] \<Longrightarrow> hd p \<notin> set s \<Longrightarrow> \<not> str_in p s"
proof (induction s)
  case Nil
  then show ?case by simp
next
  case (Cons c s)
  then show ?case by (cases p) (auto simp: prefix_Cons)
qed

lemma prefix_across:
  assumes "c \<notin> set p" "prefix p (xs @ c # ys)"
  shows "prefix p xs"
proof -
  from assms(2) obtain zs where z: "xs @ c # ys = p @ zs" by (auto simp: prefix_def)
  have "length p \<le> length xs"
  proof (rule ccontr)
    assume "\<not> length p \<le> length xs"
    then have l: "length xs < length p" by simp
    then have "(p @ zs) ! length xs = p ! length xs" by (simp add: nth_append)
    moreover have "(xs @ c # ys) ! length xs = c" by simp
    ultimately have "p ! length xs = c" using z by simp
    with l assms(1) show False by (metis nth_mem)
  qed
  with z show ?thesis
    by (metis append_eq_append_conv_if prefix_def append_take_drop_id)
qed

lemma str_in_across:
  assumes "c \<notin> set p" "p \<noteq> []"
  shows "str_in p (xs @ c # ys) \<longleftrightarrow> str_in p xs \<or> str_in p ys"
proof (induction xs)
  case Nil
  have "\<not> prefix p (c # ys)" using assms by (cases p) (auto simp: prefix_Cons)
  with assms show ?case by simp
next
  case (Cons x xs)
  have "prefix p (x # xs @ c # ys) \<longleftrightarrow> prefix p (x # xs)"
  proof
    assume "prefix p (x # xs @ c # ys)"
    then have "prefix p ((x # xs) @ c # ys)" by simp
    with assms(1) show "prefix p (x # xs)" by (rule prefix_across)
  next
    assume "prefix p (x # xs)"
    then show "prefix p (x # xs @ c # ys)" by (metis append_Cons prefix_prefix)
  qed
  with Cons show ?case by auto
qed

lemma split_on_no_sep: "d \<notin> set s \<Longrightarrow> split_on d s = [s]"
  by (induction s) auto

lemma split_on_first: "d \<notin> set xs \<Longrightarrow> split_on d (xs @ d # ys) = xs # split_on d ys"
  by (induction xs) auto

lemma split_on_not_Nil [simp]: "split_on d s \<noteq> []"
  by (induction s) (auto split: list.splits)

lemma hd_split_on: "hd (split_on d s) = takeWhile (\<lambda>c. c \<noteq> d) s"
  by (induction s) (auto split: list.splits)

lemma hd_split_on_no_sep: "d \<notin> set (hd (split_on d s))"
  unfolding hd_split_on by (metis (mono_tags, lifting) set_takeWhileD)

lemma hd_split_on_prefix: "prefix (hd (split_on d s)) s"
  unfolding hd_split_on by (metis takeWhile_dropWhile_id prefixI)

lemma str_in_prefix: "prefix xs s \<Longrightarrow> str_in p xs \<Longrightarrow> str_in p s"
  by (auto simp: prefix_def str_in_append_left)

lemma rstrip_keep: "s \<noteq> [] \<Longrightarrow> \<not> is_ws (last s) \<Longrightarrow> rstrip s = s"
  by (cases s rule: rev_cases) (simp_all add: rstrip_def)

lemma rstrip_CR_NL: "s \<noteq> [] \<Longrightarrow> \<not> is_ws (last s) \<Longrightarrow> rstrip (s @ [CR, NL]) = s"
  by (cases s rule: rev_cases) (simp_all add: rstrip_def is_ws_def)

lemma lstrip_spaces:
  "s \<noteq> [] \<Longrightarrow> \<not> is_ws (hd s) \<Longrightarrow> dropWhile is_ws (replicate k (CHR '' '') @ s) = s"
  by (induction k) (auto simp: is_ws_def dropWhile_eq_self_iff)

subsection \<open>Digits written and read\<close>

lemma digit_cases:
  assumes "d < (10::nat)"
  shows "d = 0 \<or> d = 1 \<or> d = 2 \<or> d = 3 \<or> d = 4 \<or> d = 5 \<or> d = 6 \<or> d = 7 \<or> d = 8 \<or> d = 9"
  using assms by arith

lemma digit_char_facts:
  assumes "d < 10"
  shows "is_digit (digit_char d)" "digit_val (digit_char d) = d"
  using digit_cases [OF assms]
  by (auto simp: digit_char_def is_digit_def digit_val_def)

lemma digit_set_facts:
  "\<forall>c \<in> set ''0123456789''.
     \<not> is_ws c \<and> \<not> is_exp_mark c \<and> c \<noteq> CHR ''.'' \<and> c \<noteq> CHR ''-'' \<and> c \<noteq> CHR ''+'' \<and>
     c \<noteq> CHR ''_'' \<and> c \<noteq> CHR ''='' \<and> to_lower c = c \<and> c \<noteq> CHR ''i'' \<and> c \<noteq> CHR ''n'' \<and>
     c \<noteq> CHR ''G''"
  by (simp add: is_ws_def is_exp_mark_def to_lower_def)

lemma is_digit_facts:
  assumes "is_digit c"
  shows "\<not> is_ws c" "\<not> is_exp_mark c" "c \<noteq> CHR ''.''" "c \<noteq> CHR ''-''" "c \<noteq> CHR ''+''"
    "c \<noteq> CHR ''_''" "c \<noteq> CHR ''=''" "to_lower c = c" "c \<noteq> CHR ''i''" "c \<noteq> CHR ''n''"
    "c \<noteq> CHR ''G''"
proof -
  from assms have "c \<in> set ''0123456789''" by (simp only: is_digit_def)
  with digit_set_facts have
    "\<not> is_ws c \<and> \<not> is_exp_mark c \<and> c \<noteq> CHR ''.'' \<and> c \<noteq> CHR ''-'' \<and> c \<noteq> CHR ''+'' \<and>
     c \<noteq> CHR ''_'' \<and> c \<noteq> CHR ''='' \<and> to_lower c = c \<and> c \<noteq> CHR ''i'' \<and> c \<noteq> CHR ''n'' \<and>
     c \<noteq> CHR ''G''"
    by (rule bspec)
  then show "\<not> is_ws c" "\<not> is_exp_mark c" "c \<noteq> CHR ''.''" "c \<noteq> CHR ''-''" "c \<noteq> CHR ''+''"
    "c \<noteq> CHR ''_''" "c \<noteq> CHR ''=''" "to_lower c = c" "c \<noteq> CHR ''i''" "c \<noteq> CHR ''n''"
    "c \<noteq> CHR ''G''"
    by blast+
qed

lemma digits_all: "list_all is_digit (digits n)"
proof (induction n rule: digits.induct)
  case (1 n)
  show ?case
  proof (cases "n < 10")
    case True
    then show ?thesis by (simp add: digits.simps [of n] digit_char_facts)
  next
    case False
    with 1 show ?thesis by (simp add: digits.simps [of n] digit_char_facts)
  qed
qed

lemma digits_not_Nil [simp]: "digits n \<noteq> []"
  by (subst digits.simps) simp

lemma digits_value_snoc: "digits_value (s @ [c]) = 10 * digits_value s + digit_val c"
  by (simp add: digits_value_def)

lemma digits_value_digits: "digits_value (digits n) = n"
proof (induction n rule: digits.induct)
  case (1 n)
  show ?case
  proof (cases "n < 10")
    case True
    then show ?thesis
      by (simp add: digits.simps [of n] digit_char_facts digits_value_def)
  next
    case False
    with 1 have "digits_value (digits (n div 10)) = n div 10" by simp
    with False show ?thesis
      by (simp add: digits.simps [of n] digits_value_snoc digit_char_facts)
  qed
qed

lemma two_digits:
  assumes "n < 100"
  shows "pad_left 2 (CHR ''0'') (digits n) = [digit_char (n div 10), digit_char (n mod 10)]"
proof (cases "n < 10")
  case True
  then show ?thesis
    by (simp add: digits.simps [of n] pad_left_def digit_char_def)
next
  case False
  with assms have "n div 10 < 10" by simp
  with False show ?thesis
    by (simp add: digits.simps [of n] digits.simps [of "n div 10"] pad_left_def)
qed

lemma run_of_digits:
  assumes "s \<noteq> []" "list_all is_digit s"
  shows "valid_digit_run s" "run_value s = digits_value s"
proof -
  have u: "CHR ''_'' \<notin> set s"
    using assms(2) by (auto simp: list_all_iff dest: is_digit_facts(6))
  then have "\<not> str_in ''__'' s"
    by (intro no_str_in) simp_all
  moreover have "is_digit (hd s)" "is_digit (last s)"
    using assms by (simp_all add: list_all_iff)
  moreover have "list_all (\<lambda>c. is_digit c \<or> c = CHR ''_'') s"
    using assms(2) by (simp add: list_all_iff)
  ultimately show "valid_digit_run s"
    using assms(1) by (simp add: valid_digit_run_def)
  have "filter (\<lambda>c. c \<noteq> CHR ''_'') s = s"
    using u by (auto simp: filter_id_conv)
  then show "run_value s = digits_value s" by (simp add: run_value_def)
qed

lemma not_ws_minus: "\<not> is_ws (CHR ''-'')"
  by (simp add: is_ws_def)

lemma py_float_decimal:
  assumes D: "D \<noteq> []" "list_all is_digit D" and F: "F \<noteq> []" "list_all is_digit F"
  shows "py_float (replicate k (CHR '' '') @ (if neg then ''-'' else []) @ D @ CHR ''.'' # F)
           = Inr ((if neg then - 1 else 1) *
                  (real (digits_value D) + real (digits_value F) / 10 ^ length F))"
proof -
  let ?B = "D @ CHR ''.'' # F"
  let ?t = "(if neg then ''-'' else []) @ ?B"
  have dD: "\<And>c. c \<in> set D \<Longrightarrow> is_digit c" and dF: "\<And>c. c \<in> set F \<Longrightarrow> is_digit c"
    using D F by (simp_all add: list_all_iff)
  have hdD: "is_digit (hd D)" and lastF: "is_digit (last F)"
    using D F by (simp_all add: list_all_iff)
  have t_ne: "?t \<noteq> []" using D by simp
  have hd_t: "\<not> is_ws (hd ?t)"
    using D hdD by (cases neg) (simp_all add: is_digit_facts(1) not_ws_minus hd_append)
  have last_t: "\<not> is_ws (last ?t)"
    using F lastF by (simp add: is_digit_facts(1))
  have "dropWhile is_ws (replicate k (CHR '' '') @ ?t) = ?t"
    using t_ne hd_t by (rule lstrip_spaces)
  then have "strip (replicate k (CHR '' '') @ ?t) = rstrip ?t"
    by (simp only: strip_def)
  also have "\<dots> = ?t" using t_ne last_t by (rule rstrip_keep)
  finally have st: "strip (replicate k (CHR '' '') @ ?t) = ?t" .
  have sg: "split_sign ?t = (neg, ?B)"
  proof (cases D)
    case Nil
    with D show ?thesis by simp
  next
    case (Cons c cs)
    with hdD have "c \<noteq> CHR ''-''" "c \<noteq> CHR ''+''"
      by (simp_all add: is_digit_facts)
    with Cons show ?thesis by (simp add: split_sign_def)
  qed
  have "\<not> is_exp_mark (CHR ''.'')"
    by (simp add: is_exp_mark_def)
  then have noexp: "\<forall>c \<in> set ?B. \<not> is_exp_mark c"
    using dD dF by (auto dest: is_digit_facts(2))
  have mant: "takeWhile (\<lambda>c. \<not> is_exp_mark c) ?B = ?B"
    using noexp by (simp only: takeWhile_eq_all_conv)
  have rest: "dropWhile (\<lambda>c. \<not> is_exp_mark c) ?B = []"
    using noexp by (simp only: dropWhile_eq_Nil_conv)
  have ip: "takeWhile (\<lambda>c. c \<noteq> CHR ''.'') ?B = D"
    using dD by (simp add: takeWhile_tail is_digit_facts(3))
  have fp: "drop 1 (dropWhile (\<lambda>c. c \<noteq> CHR ''.'') ?B) = F"
    using dD by (simp add: dropWhile_append3 is_digit_facts(3))
  have "hd (map to_lower ?B) = hd D"
    using D hdD by (simp add: hd_append hd_map is_digit_facts(8))
  then have "hd (map to_lower ?B) \<noteq> CHR ''i''" "hd (map to_lower ?B) \<noteq> CHR ''n''"
    using hdD by (simp_all add: is_digit_facts)
  then have special: "map to_lower ?B \<notin> set [''inf'', ''infinity'', ''nan'']"
    by auto
  have fF: "filter (\<lambda>c. c \<noteq> CHR ''_'') F = F"
    using dF by (auto simp: filter_id_conv dest: is_digit_facts(6))
  show ?thesis
    unfolding py_float_def st sg
    by (simp only: Let_def prod.case mant rest ip fp special fF run_of_digits [OF D]
          run_of_digits [OF F] split_sign_def drop_Nil list.case if_True if_False simp_thms)
      (simp add: D F)
qed

lemma printed_two_decimals:
  "py_float (rstrip (pad_left 7 (CHR '' '') (fmt_f 2 v) @ [CR, NL])) = Inr (two_decimals v)"
proof -
  define n where "n = nat (round_half_even (\<bar>v\<bar> * 100))"
  let ?D = "digits (n div 100)"
  let ?F = "[digit_char (n div 10 mod 10), digit_char (n mod 10)]"
  have m: "n mod 100 = 10 * (n div 10 mod 10) + n mod 10"
    using mod_mult2_eq [of n 10 10] by simp
  have "n mod 100 < 100" by simp
  then have "pad_left 2 (CHR ''0'') (digits (n mod 100)) = [digit_char (n mod 100 div 10), digit_char (n mod 100 mod 10)]"
    by (rule two_digits)
  also have "n mod 100 div 10 = n div 10 mod 10" by (simp add: m)
  also have "n mod 100 mod 10 = n mod 10" by (simp add: m)
  finally have two: "pad_left 2 (CHR ''0'') (digits (n mod 100)) = ?F" .
  let ?t = "(if v < 0 then ''-'' else []) @ ?D @ CHR ''.'' # ?F"
  have f: "fmt_f 2 v = ?t"
    by (simp add: fmt_f_def fixed_digits_def n_def [symmetric] two)
  have F: "?F \<noteq> []" "list_all is_digit ?F"
    by (simp_all add: digit_char_facts)
  have D: "?D \<noteq> []" "list_all is_digit ?D"
    by (simp_all add: digits_all)
  have pad: "pad_left 7 (CHR '' '') ?t = replicate (7 - length ?t) (CHR '' '') @ ?t"
    by (simp only: pad_left_def)
  have ne: "replicate (7 - length ?t) (CHR '' '') @ ?t \<noteq> []" by simp
  have lst: "\<not> is_ws (last (replicate (7 - length ?t) (CHR '' '') @ ?t))"
    by (simp add: is_digit_facts(1) digit_char_facts)
  have "rstrip (pad_left 7 (CHR '' '') (fmt_f 2 v) @ [CR, NL]) =
      replicate (7 - length ?t) (CHR '' '') @ ?t"
    unfolding f pad using ne lst by (rule rstrip_CR_NL)
  then have "py_float (rstrip (pad_left 7 (CHR '' '') (fmt_f 2 v) @ [CR, NL])) =
      Inr ((if v < 0 then - 1 else 1) *
           (real (digits_value ?D) + real (digits_value ?F) / 10 ^ length ?F))"
    by (simp only: py_float_decimal [OF D F])
  also have "digits_value ?D = n div 100" by (rule digits_value_digits)
  also have "digits_value ?F = n mod 100"
  proof -
    have "digits_value ?F = 10 * (n div 10 mod 10) + n mod 10"
      by (simp add: digits_value_def digit_char_facts)
    also have "\<dots> = n mod 100" by (simp only: m)
    finally show ?thesis .
  qed
  also have "real (n div 100) + real (n mod 100) / 10 ^ length ?F = real n / 10 ^ 2"
  proof -
    have "real n = real (n div 100 * 100 + n mod 100)" by simp
    also have "\<dots> = real (n div 100) * 100 + real (n mod 100)"
      by (simp only: of_nat_add of_nat_mult of_nat_numeral)
    finally show ?thesis by (simp add: field_simps)
  qed
  finally show ?thesis
    by (simp add: two_decimals_def n_def)
qed

subsection \<open>Cube size: \<^verbatim>\<open>change_cube_size\<close>, then \<^verbatim>\<open>get_cube_size\<close>\<close>

lemma set_pad_left: "set (pad_left w c s) \<subseteq> insert c (set s)"
  by (auto simp: pad_left_def)

lemma printed_chars:
  assumes "c \<in> set (pad_left 7 (CHR '' '') (fmt_f 2 v))"
  shows "is_digit c \<or> c = CHR '' '' \<or> c = CHR ''-'' \<or> c = CHR ''.'' \<or> c = CHR ''0''"
proof -
  have d: "\<And>n x. x \<in> set (digits n) \<Longrightarrow> is_digit x"
    using digits_all by (simp add: list_all_iff)
  from assms set_pad_left have "c = CHR '' '' \<or> c \<in> set (fmt_f 2 v)" by fastforce
  then show ?thesis
  proof
    assume "c = CHR '' ''" then show ?thesis by simp
  next
    assume "c \<in> set (fmt_f 2 v)"
    then have "c = CHR ''-'' \<or> c = CHR ''.'' \<or> (\<exists>n. c \<in> set (digits n)) \<or>
        (\<exists>n. c \<in> set (pad_left 2 (CHR ''0'') (digits n)))"
      by (auto simp: fmt_f_def fixed_digits_def split: if_splits)
    with set_pad_left d show ?thesis by fastforce
  qed
qed

lemma printed_no_anchor:
  assumes "c \<in> set (pad_left 7 (CHR '' '') (fmt_f 2 v) @ [CR, NL])"
  shows "c \<noteq> CHR ''G''" "c \<noteq> CHR ''=''"
proof -
  from assms printed_chars have
    "is_digit c \<or> c = CHR '' '' \<or> c = CHR ''-'' \<or> c = CHR ''.'' \<or> c = CHR ''0'' \<or> c = CR \<or> c = NL"
    by auto
  then show "c \<noteq> CHR ''G''" "c \<noteq> CHR ''=''"
    by (auto dest: is_digit_facts(7,11))
qed

lemma cube_line_read:
  "bindE (py_index (split_on (CHR ''='') (cube_line v l)) 1)
     (\<lambda>t. bindE (py_float (rstrip t)) (\<lambda>x. Inr (Some x))) = Inr (Some (two_decimals v))"
proof -
  let ?rest = "pad_left 7 (CHR '' '') (fmt_f 2 v) @ [CR, NL]"
  have c: "cube_line v l = hd (split_on (CHR ''='') l) @ CHR ''='' # ?rest"
    by (simp add: cube_line_def)
  have "CHR ''='' \<notin> set ?rest" using printed_no_anchor(2) by blast
  then have "split_on (CHR ''='') ?rest = [?rest]" by (rule split_on_no_sep)
  then have "split_on (CHR ''='') (cube_line v l) = [hd (split_on (CHR ''='') l), ?rest]"
    unfolding c by (simp only: split_on_first [OF hd_split_on_no_sep])
  then have "py_index (split_on (CHR ''='') (cube_line v l)) 1 = Inr ?rest"
    by (simp add: py_index_def)
  then show ?thesis
    by (simp only: bindE_def sum.case printed_two_decimals)
qed

lemma cube_line_anchor:
  assumes "cs \<noteq> []" "hd cs = CHR ''G''" "CHR ''='' \<notin> set cs"
  shows "str_in cs (cube_line v l) \<longleftrightarrow> str_in cs (hd (split_on (CHR ''='') l))"
proof -
  let ?rest = "pad_left 7 (CHR '' '') (fmt_f 2 v) @ [CR, NL]"
  have c: "cube_line v l = hd (split_on (CHR ''='') l) @ CHR ''='' # ?rest"
    by (simp add: cube_line_def)
  have "hd cs \<notin> set ?rest" using assms(2) printed_no_anchor(1) by metis
  with assms(1) have "\<not> str_in cs ?rest" by (rule no_str_in)
  then show ?thesis
    unfolding c by (simp only: str_in_across [OF assms(3) assms(1)] simp_thms)
qed

lemma find_after_change:
  assumes cs: "cs = ''Geology Cube Size'' \<or> cs = ''Geophysics Cube Size''"
    and ex: "cube_anchor_before_equals cs fl"
  shows "find_cube_size cs (map (change_cube_line v) fl) = Inr (Some (two_decimals v))"
  using ex
proof (induction fl)
  case Nil
  then show ?case by (simp add: cube_anchor_before_equals_def)
next
  case (Cons l fl)
  have a: "cs \<noteq> []" "hd cs = CHR ''G''" "CHR ''='' \<notin> set cs"
    using cs by auto
  show ?case
  proof (cases "str_in cs (hd (split_on (CHR ''='') l))")
    case True
    then have "str_in cs l"
      using hd_split_on_prefix str_in_prefix by blast
    with cs have l': "change_cube_line v l = cube_line v l"
      by (auto simp: change_cube_line_def)
    have "str_in cs (cube_line v l)"
      using True by (simp only: cube_line_anchor [OF a])
    then show ?thesis
      by (simp only: list.map find_cube_size.simps l' if_True cube_line_read)
  next
    case False
    have "\<not> str_in cs (change_cube_line v l)"
    proof (cases "change_cube_line v l = cube_line v l")
      case True
      with False show ?thesis by (simp add: cube_line_anchor [OF a])
    next
      case False
      then have "change_cube_line v l = l \<and> \<not> str_in ''Geology Cube Size'' l \<and>
          \<not> str_in ''Geophysics Cube Size'' l"
        by (simp add: change_cube_line_def split: if_splits)
      with cs show ?thesis by auto
    qed
    moreover from False Cons.prems have "cube_anchor_before_equals cs fl"
      by (simp add: cube_anchor_before_equals_def)
    ultimately show ?thesis
      using Cons.IH by (simp only: list.map find_cube_size.simps if_False)
  qed
qed

lemma round_half_even_int: "round_half_even (of_int k) = k"
  by (simp add: round_half_even_def)

lemma two_decimals_exact:
  assumes "v * 100 \<in> \<int>"
  shows "two_decimals v = v"
proof -
  from assms obtain k where k: "v * 100 = of_int k" by (auto elim: Ints_cases)
  have "\<bar>v\<bar> * 100 = \<bar>v * 100\<bar>"
    by (simp add: abs_mult)
  also have "\<dots> = of_int \<bar>k\<bar>"
    by (simp only: k of_int_abs)
  finally have e: "\<bar>v\<bar> * 100 = of_int \<bar>k\<bar>" .
  have "round_half_even (\<bar>v\<bar> * 100) = \<bar>k\<bar>"
    by (simp only: e round_half_even_int)
  then have "real (nat (round_half_even (\<bar>v\<bar> * 100))) = \<bar>v\<bar> * 100"
    by (simp add: e)
  then show ?thesis
    by (simp add: two_decimals_def)
qed

lemma get_after_change:
  assumes fl: "footer_lines h = Some fl"
    and ex: "cube_anchor_before_equals (cube_string sim_type) fl"
  shows "snd (get_cube_size T sim_type (fst (change_cube_size T v h))) = Inr (Some (two_decimals v))"
proof -
  have cs: "cube_string sim_type = ''Geology Cube Size'' \<or>
            cube_string sim_type = ''Geophysics Cube Size''"
    by (simp add: cube_string_def)
  have "footer_lines (fst (change_cube_size T v h)) = Some (map (change_cube_line v) fl)"
    using fl by (simp add: change_cube_size_def ensure_footer_def footer_of_def)
  then have "footer_of (ensure_footer T (fst (change_cube_size T v h))) = map (change_cube_line v) fl"
    by (simp add: ensure_footer_def footer_of_def)
  then show ?thesis
    by (simp add: get_cube_size_def find_after_change [OF cs ex])
qed

text \<open>
  C1, as the code has it. When the footer has both cube-size labels before the equals
  sign of a line, \<^verbatim>\<open>get_cube_size\<close> after \<^verbatim>\<open>change_cube_size(v)\<close> returns, for
  \<^verbatim>\<open>type='Geology'\<close>, for \<^verbatim>\<open>type='Geophysics'\<close> and with no type given, the value
  of the text \<^verbatim>\<open>'%7.2f' % v\<close> that both fields were rewritten to: \<open>v\<close> rounded to two
  decimals, which is \<open>v\<close> when \<open>v\<close> is a whole number of hundredths.
\<close>

theorem cube_size_after_change:
  assumes "footer_lines h = Some fl"
    and "cube_anchor_before_equals ''Geology Cube Size'' fl"
    and "cube_anchor_before_equals ''Geophysics Cube Size'' fl"
  shows "snd (get_cube_size T (Some ''Geology'') (fst (change_cube_size T v h)))
           = Inr (Some (two_decimals v)) \<and>
         snd (get_cube_size T (Some ''Geophysics'') (fst (change_cube_size T v h)))
           = Inr (Some (two_decimals v)) \<and>
         snd (get_cube_size T None (fst (change_cube_size T v h)))
           = Inr (Some (two_decimals v)) \<and>
         (v * 100 \<in> \<int> \<longrightarrow> two_decimals v = v)"
proof -
  have g: "cube_string (Some ''Geology'') = ''Geology Cube Size''"
    and p: "cube_string (Some ''Geophysics'') = ''Geophysics Cube Size''"
    and n: "cube_string None = ''Geophysics Cube Size''"
    by (simp_all add: cube_string_def)
  show ?thesis
    using assms
    by (simp add: get_after_change [where sim_type = "Some ''Geology''"] g
        get_after_change [where sim_type = "Some ''Geophysics''"] p
        get_after_change [where sim_type = None] n two_decimals_exact)
qed

lemma cube_footer_anchors:
  "footer_lines cube_footer_history =
     Some [''#BlockOptions'' @ [NL],
           [TAB] @ ''Geology Cube Size'' @ [TAB] @ ''=  50.00'' @ [NL],
           [TAB] @ ''Geophysics Cube Size'' @ [TAB] @ ''= 50.00'' @ [NL]]"
  "cube_anchor_before_equals ''Geology Cube Size''
     [''#BlockOptions'' @ [NL],
      [TAB] @ ''Geology Cube Size'' @ [TAB] @ ''=  50.00'' @ [NL],
      [TAB] @ ''Geophysics Cube Size'' @ [TAB] @ ''= 50.00'' @ [NL]]"
  "cube_anchor_before_equals ''Geophysics Cube Size''
     [''#BlockOptions'' @ [NL],
      [TAB] @ ''Geology Cube Size'' @ [TAB] @ ''=  50.00'' @ [NL],
      [TAB] @ ''Geophysics Cube Size'' @ [TAB] @ ''= 50.00'' @ [NL]]"
  by (simp_all add: cube_footer_history_def cube_anchor_before_equals_def)

theorem cube_size_after_change_witness:
  "cube_anchor_before_equals ''Geology Cube Size'' (footer_of cube_footer_history) \<and>
   cube_anchor_before_equals ''Geophysics Cube Size'' (footer_of cube_footer_history) \<and>
   snd (get_cube_size example_templates (Some ''Geology'')
          (fst (change_cube_size example_templates 50 cube_footer_history))) = Inr (Some 50) \<and>
   snd (get_cube_size example_templates (Some ''Geophysics'')
          (fst (change_cube_size example_templates 50 cube_footer_history))) = Inr (Some 50)"
proof -
  have i: "(50::real) * 100 \<in> \<int>" by simp
  from cube_size_after_change [OF cube_footer_anchors, of example_templates 50] i
  have "snd (get_cube_size example_templates (Some ''Geology'')
          (fst (change_cube_size example_templates 50 cube_footer_history))) = Inr (Some 50)"
    and "snd (get_cube_size example_templates (Some ''Geophysics'')
          (fst (change_cube_size example_templates 50 cube_footer_history))) = Inr (Some 50)"
    by simp_all
  then show ?thesis
    using cube_footer_anchors by (simp add: footer_of_def)
qed

text \<open>
  C1, as claimed, returns \<open>v\<close> itself. For \<open>v = 1/16\<close> it does not: both fields
  are rewritten to \<^verbatim>\<open>0.06\<close>, and 0.06 is what \<^verbatim>\<open>get_cube_size\<close> returns.
\<close>

lemma two_decimals_sixteenth: "two_decimals (1 / 16) = 3 / 50"
  by (simp add: two_decimals_def round_half_even_def)

theorem cube_size_sixteenth:
  "cube_anchor_before_equals ''Geology Cube Size'' (footer_of cube_footer_history) \<and>
   cube_anchor_before_equals ''Geophysics Cube Size'' (footer_of cube_footer_history) \<and>
   snd (get_cube_size example_templates (Some ''Geology'')
          (fst (change_cube_size example_templates (1 / 16) cube_footer_history)))
     = Inr (Some (3 / 50)) \<and>
   snd (get_cube_size example_templates (Some ''Geology'')
          (fst (change_cube_size example_templates (1 / 16) cube_footer_history)))
     \<noteq> Inr (Some (1 / 16))"
proof -
  have g: "cube_string (Some ''Geology'') = ''Geology Cube Size''"
    by (simp add: cube_string_def)
  have "snd (get_cube_size example_templates (Some ''Geology'')
          (fst (change_cube_size example_templates (1 / 16) cube_footer_history)))
     = Inr (Some (two_decimals (1 / 16)))"
    by (rule get_after_change [OF cube_footer_anchors(1)]) (simp only: g cube_footer_anchors(2))
  then show ?thesis
    using cube_footer_anchors by (simp add: two_decimals_sixteenth footer_of_def)
qed

end
